theory Spec2Isabelle
  imports Complex_Main
begin

section \<open>JavaScript values\<close>

text \<open>
  Request bodies, rows sent to the browser and the entries of the browser's project list
  are JSON values. A JSON number is modelled as a rational (JSON has no NaN and no
  infinity); a string as a list of 8-bit characters, each one code unit. An object is its
  list of own properties, each key once, in insertion order.
\<close>

datatype jsval =
    JUndefined
  | JNull
  | JBool bool
  | JNum rat
  | JStr string
  | JArr "jsval list"
  | JObj "(string \<times> jsval) list"

type_synonym jsobj = "(string \<times> jsval) list"

text \<open>The conversion to boolean of \<^verbatim>\<open>!x\<close>, \<^verbatim>\<open>x ? a : b\<close> and \<^verbatim>\<open>x || y\<close>.\<close>

fun truthy :: "jsval \<Rightarrow> bool" where
  "truthy JUndefined = False"
| "truthy JNull = False"
| "truthy (JBool b) = b"
| "truthy (JNum n) = (n \<noteq> 0)"
| "truthy (JStr s) = (s \<noteq> [])"
| "truthy (JArr xs) = True"
| "truthy (JObj kvs) = True"

text \<open>\<^verbatim>\<open>a || b\<close>\<close>

definition js_or :: "jsval \<Rightarrow> jsval \<Rightarrow> jsval" where
  "js_or a b = (if truthy a then a else b)"

text \<open>
  \<^verbatim>\<open>o.k\<close> on an object, and the destructuring \<^verbatim>\<open>const { k } = o\<close>: the value of
  the own property, \<^verbatim>\<open>undefined\<close> when there is none.
\<close>

definition js_get :: "jsobj \<Rightarrow> string \<Rightarrow> jsval" where
  "js_get obj k = (case map_of obj k of None \<Rightarrow> JUndefined | Some v \<Rightarrow> v)"

section \<open>The record store\<close>

text \<open>
  The table \<^verbatim>\<open>projects\<close> of the server's \<^verbatim>\<open>CREATE TABLE\<close> statement. A cell holds
  NULL, a number or text. The columns \<^verbatim>\<open>title\<close>, \<^verbatim>\<open>deadline\<close> and
  \<^verbatim>\<open>person\<close> are declared \<^verbatim>\<open>NOT NULL\<close>; \<^verbatim>\<open>id\<close> is
  \<^verbatim>\<open>INTEGER PRIMARY KEY AUTOINCREMENT\<close>.
\<close>

datatype sqlval = SNull | SNum rat | SText string

record cols =
  title :: sqlval
  description :: sqlval
  deadline :: sqlval
  person :: sqlval
  client :: sqlval
  contact :: sqlval
  achievements :: sqlval
  price :: sqlval
  finished :: sqlval

record row = cols +
  id_col :: int

text \<open>
  The state of the database: the rows of the table in rowid order, and the largest rowid
  the table has ever held (the \<^verbatim>\<open>sqlite_sequence\<close> entry that \<^verbatim>\<open>AUTOINCREMENT\<close>
  maintains). Row ids are unbounded integers here; the engine's are 64-bit.
\<close>

record store =
  projects :: "row list"
  sqlite_sequence :: int

definition empty_store :: store where
  "empty_store = \<lparr>projects = [], sqlite_sequence = 0\<rparr>"

text \<open>
  How a JavaScript value bound to a statement parameter is stored in a column. A string in
  a \<^verbatim>\<open>TEXT\<close> column and a number in a \<^verbatim>\<open>REAL\<close> column are stored as they are;
  \<^verbatim>\<open>null\<close> and an unbound (\<^verbatim>\<open>undefined\<close>) parameter are NULL. A value of any
  other type is converted by the database driver and the column's type affinity; these
  conversions are no code of this repository and are taken as parameters. So is the way
  the driver reads a plain object given as the parameters of a statement
  (\<open>object_params\<close>): the values it binds, by position, or \<open>None\<close> when a key
  names no parameter of the statement and the binding fails.
\<close>

record engine =
  text_conv :: "jsval \<Rightarrow> sqlval"
  real_conv :: "jsval \<Rightarrow> sqlval"
  int_conv :: "jsval \<Rightarrow> sqlval"
  object_params :: "jsobj \<Rightarrow> jsval list option"

definition text_column :: "engine \<Rightarrow> jsval \<Rightarrow> sqlval" where
  "text_column eng v =
     (case v of
        JUndefined \<Rightarrow> SNull
      | JNull \<Rightarrow> SNull
      | JStr s \<Rightarrow> SText s
      | _ \<Rightarrow> text_conv eng v)"

definition real_column :: "engine \<Rightarrow> jsval \<Rightarrow> sqlval" where
  "real_column eng v =
     (case v of
        JUndefined \<Rightarrow> SNull
      | JNull \<Rightarrow> SNull
      | JNum n \<Rightarrow> SNum n
      | _ \<Rightarrow> real_conv eng v)"

definition int_column :: "engine \<Rightarrow> jsval \<Rightarrow> sqlval" where
  "int_column eng v =
     (case v of
        JUndefined \<Rightarrow> SNull
      | JNull \<Rightarrow> SNull
      | JNum n \<Rightarrow> SNum n
      | _ \<Rightarrow> int_conv eng v)"

text \<open>A cell as the driver hands it back to JavaScript.\<close>

fun from_sql :: "sqlval \<Rightarrow> jsval" where
  "from_sql SNull = JNull"
| "from_sql (SNum n) = JNum n"
| "from_sql (SText s) = JStr s"

text \<open>A row of \<^verbatim>\<open>SELECT *\<close> as the object sent by \<^verbatim>\<open>res.json\<close>.\<close>

definition row_json :: "row \<Rightarrow> jsobj" where
  "row_json r =
     [(''id'', JNum (of_int (id_col r))),
      (''title'', from_sql (title r)),
      (''description'', from_sql (description r)),
      (''deadline'', from_sql (deadline r)),
      (''person'', from_sql (person r)),
      (''client'', from_sql (client r)),
      (''contact'', from_sql (contact r)),
      (''achievements'', from_sql (achievements r)),
      (''price'', from_sql (price r)),
      (''finished'', from_sql (finished r))]"

definition with_id :: "int \<Rightarrow> cols \<Rightarrow> row" where
  "with_id i c =
     \<lparr>title = title c, description = description c, deadline = deadline c,
      person = person c, client = client c, contact = contact c,
      achievements = achievements c, price = price c, finished = finished c,
      id_col = i\<rparr>"

text \<open>The \<^verbatim>\<open>NOT NULL\<close> constraints of the table.\<close>

definition not_null_ok :: "cols \<Rightarrow> bool" where
  "not_null_ok c = (title c \<noteq> SNull \<and> deadline c \<noteq> SNull \<and> person c \<noteq> SNull)"

datatype sql_error = SQLITE_CONSTRAINT

definition max_id :: "row list \<Rightarrow> int" where
  "max_id rs = fold max (map id_col rs) 0"

text \<open>
  \<^verbatim>\<open>INSERT INTO projects (...) VALUES (...)\<close>: the new rowid is one more than the largest
  the table has ever held. Returns the new state and \<^verbatim>\<open>this.lastID\<close>.
\<close>

definition sql_insert :: "store \<Rightarrow> cols \<Rightarrow> sql_error + (store \<times> int)" where
  "sql_insert s c =
     (if \<not> not_null_ok c then Inl SQLITE_CONSTRAINT
      else
        let i = max (sqlite_sequence s) (max_id (projects s)) + 1
        in Inr (\<lparr>projects = projects s @ [with_id i c], sqlite_sequence = i\<rparr>, i))"

text \<open>
  \<^verbatim>\<open>WHERE id = ?\<close>. In the update and delete handlers the parameter is the path segment
  \<^verbatim>\<open>req.params.id\<close>, a text that the engine compares with the integer key as a number:
  \<open>Some i\<close> is a segment that denotes the integer \<open>i\<close>, \<open>None\<close> one that denotes no
  integer and so equals no key.
\<close>

definition matches :: "int option \<Rightarrow> row \<Rightarrow> bool" where
  "matches pid r = (pid = Some (id_col r))"

text \<open>\<^verbatim>\<open>SELECT * FROM projects WHERE id = ?\<close> through \<^verbatim>\<open>db.get\<close>: the first row, if any.\<close>

definition sql_get :: "store \<Rightarrow> int option \<Rightarrow> row option" where
  "sql_get s pid = find (matches pid) (projects s)"

text \<open>
  \<^verbatim>\<open>UPDATE projects SET ... WHERE id = ?\<close>: a statement that would leave NULL in a
  \<^verbatim>\<open>NOT NULL\<close> column of a row fails and changes nothing; one that matches no row
  succeeds and changes nothing.
\<close>

definition sql_update :: "store \<Rightarrow> int option \<Rightarrow> cols \<Rightarrow> sql_error + store" where
  "sql_update s pid c =
     (if (\<exists>r \<in> set (projects s). matches pid r) \<and> \<not> not_null_ok c
      then Inl SQLITE_CONSTRAINT
      else Inr (s\<lparr>projects :=
                  map (\<lambda>r. if matches pid r then with_id (id_col r) c else r) (projects s)\<rparr>))"

text \<open>\<^verbatim>\<open>DELETE FROM projects WHERE id = ?\<close>\<close>

definition sql_delete :: "store \<Rightarrow> int option \<Rightarrow> store" where
  "sql_delete s pid = s\<lparr>projects := filter (\<lambda>r. \<not> matches pid r) (projects s)\<rparr>"

section \<open>The project API\<close>

text \<open>
  A response is its status and its body: the array of rows of the list endpoint, one
  object, or nothing (\<^verbatim>\<open>res.json(undefined)\<close> sends an empty body).
\<close>

datatype body = Rows "jsobj list" | Doc jsobj | NoBody

datatype response = Response nat body

definition error_doc :: "string \<Rightarrow> body" where
  "error_doc msg = Doc [(''error'', JStr msg)]"

definition row_body :: "row option \<Rightarrow> body" where
  "row_body r = (case r of None \<Rightarrow> NoBody | Some x \<Rightarrow> Doc (row_json x))"

text \<open>\<^verbatim>\<open>finished ? 1 : 0\<close>\<close>

definition finished_flag :: "jsval \<Rightarrow> sqlval" where
  "finished_flag v = SNum (if truthy v then 1 else 0)"

text \<open>\<^verbatim>\<open>app.get('/api/projects')\<close>\<close>

definition get_projects :: "store \<Rightarrow> response" where
  "get_projects s = Response 200 (Rows (map row_json (projects s)))"

text \<open>
  The parameters of \<^verbatim>\<open>stmt.run(a1, ..., a9, callback)\<close>. The driver looks at the first
  argument: an array is the whole parameter list, its elements bound to the placeholders
  in order, and the other arguments are ignored; so is a plain object, read by the driver
  through its keys; any other first argument makes the arguments themselves the list.
  The statement has nine placeholders, and binding a tenth value fails.
\<close>

definition run_params :: "engine \<Rightarrow> jsval list \<Rightarrow> jsval list option" where
  "run_params eng args =
     (case args of
        [] \<Rightarrow> Some []
      | a # rest \<Rightarrow>
          (case a of
             JArr xs \<Rightarrow> if length xs \<le> 9 then Some xs else None
           | JObj kvs \<Rightarrow> object_params eng kvs
           | _ \<Rightarrow> Some args))"

text \<open>The value bound to a placeholder; a placeholder left unbound is NULL.\<close>

definition param :: "jsval list \<Rightarrow> nat \<Rightarrow> jsval" where
  "param vs i = (if i < length vs then vs ! i else JUndefined)"

text \<open>The nine columns of the \<^verbatim>\<open>INSERT\<close> statement, from the values bound.\<close>

definition insert_cols :: "engine \<Rightarrow> jsval list \<Rightarrow> cols" where
  "insert_cols eng vs =
     \<lparr>title = text_column eng (param vs 0),
      description = text_column eng (param vs 1),
      deadline = text_column eng (param vs 2),
      person = text_column eng (param vs 3),
      client = text_column eng (param vs 4),
      contact = text_column eng (param vs 5),
      achievements = real_column eng (param vs 6),
      price = real_column eng (param vs 7),
      finished = int_column eng (param vs 8)\<rparr>"

text \<open>
  \<^verbatim>\<open>app.post('/api/projects')\<close>. The argument is \<^verbatim>\<open>req.body\<close>, the object
  that \<^verbatim>\<open>express.json()\<close> has parsed. Every handler returns the new store and the
  response it sends. The nine values are passed to \<^verbatim>\<open>stmt.run\<close> as separate
  arguments, the title first.
\<close>

definition post_project :: "engine \<Rightarrow> store \<Rightarrow> jsobj \<Rightarrow> store \<times> response" where
  "post_project eng s b =
     (let t = js_get b ''title''; d = js_get b ''deadline''; p = js_get b ''person''
      in if \<not> truthy t \<or> \<not> truthy d \<or> \<not> truthy p
         then (s, Response 400 (error_doc ''Title, deadline and person are required''))
         else
           (case run_params eng
                   [t,
                    js_or (js_get b ''description'') (JStr []),
                    d,
                    p,
                    js_or (js_get b ''client'') (JStr []),
                    js_or (js_get b ''contact'') (JStr []),
                    js_or (js_get b ''achievements'') (JNum 0),
                    js_or (js_get b ''price'') (JNum 0),
                    JNum (if truthy (js_get b ''finished'') then 1 else 0)] of
              None \<Rightarrow> (s, Response 500 (error_doc ''Database insertion error''))
            | Some vs \<Rightarrow>
                (case sql_insert s (insert_cols eng vs) of
                   Inl err \<Rightarrow> (s, Response 500 (error_doc ''Database insertion error''))
                 | Inr (s', insertedId) \<Rightarrow>
                     (s', Response 201 (row_body (sql_get s' (Some insertedId)))))))"

text \<open>
  \<^verbatim>\<open>app.put('/api/projects/:id')\<close>. Here the values are passed to \<^verbatim>\<open>db.run\<close>
  in one array, so each is bound to its own placeholder whatever its type.
\<close>

definition put_project :: "engine \<Rightarrow> store \<Rightarrow> int option \<Rightarrow> jsobj \<Rightarrow> store \<times> response" where
  "put_project eng s projectId b =
     (case sql_update s projectId
             \<lparr>title = text_column eng (js_get b ''title''),
              description = text_column eng (js_get b ''description''),
              deadline = text_column eng (js_get b ''deadline''),
              person = text_column eng (js_get b ''person''),
              client = text_column eng (js_get b ''client''),
              contact = text_column eng (js_get b ''contact''),
              achievements = real_column eng (js_get b ''achievements''),
              price = real_column eng (js_get b ''price''),
              finished = finished_flag (js_get b ''finished'')\<rparr> of
        Inl err \<Rightarrow> (s, Response 500 (error_doc ''Database update error''))
      | Inr s' \<Rightarrow> (s', Response 200 (row_body (sql_get s' projectId))))"

text \<open>\<^verbatim>\<open>app.delete('/api/projects/:id')\<close>\<close>

definition delete_project :: "store \<Rightarrow> int option \<Rightarrow> store \<times> response" where
  "delete_project s projectId =
     (sql_delete s projectId, Response 200 (Doc [(''success'', JBool True)]))"

text \<open>
  A create request whose title is neither an array nor an object: its nine arguments are
  the parameters of the statement.
\<close>

definition scalar_title :: "jsobj \<Rightarrow> bool" where
  "scalar_title b =
     (case js_get b ''title'' of JArr xs \<Rightarrow> False | JObj kvs \<Rightarrow> False | _ \<Rightarrow> True)"

text \<open>A request to the API, and the API as a transition on the store.\<close>

datatype request =
    GetProjects
  | PostProject jsobj
  | PutProject "int option" jsobj
  | DeleteProject "int option"

fun handle :: "engine \<Rightarrow> store \<Rightarrow> request \<Rightarrow> store \<times> response" where
  "handle eng s GetProjects = (s, get_projects s)"
| "handle eng s (PostProject b) = post_project eng s b"
| "handle eng s (PutProject i b) = put_project eng s i b"
| "handle eng s (DeleteProject i) = delete_project s i"

fun scalar_request :: "request \<Rightarrow> bool" where
  "scalar_request (PostProject b) = scalar_title b"
| "scalar_request _ = True"

text \<open>The store after a sequence of requests, served one after the other.\<close>

fun run :: "engine \<Rightarrow> store \<Rightarrow> request list \<Rightarrow> store" where
  "run eng s [] = s"
| "run eng s (q # qs) = run eng (fst (handle eng s q)) qs"

text \<open>
  The table never holds a rowid above the recorded maximum: the engine keeps
  \<^verbatim>\<open>sqlite_sequence\<close> this way for an \<^verbatim>\<open>AUTOINCREMENT\<close> table.
\<close>

definition seq_ok :: "store \<Rightarrow> bool" where
  "seq_ok s = list_all (\<lambda>r. id_col r \<le> sqlite_sequence s) (projects s)"

text \<open>
  A stand-in for the driver's conversions, to evaluate the handlers on concrete requests;
  the theorems hold for every engine.
\<close>

definition sample_engine :: engine where
  "sample_engine =
     \<lparr>text_conv = (\<lambda>v. SText []), real_conv = (\<lambda>v. SNull), int_conv = (\<lambda>v. SNull),
      object_params = (\<lambda>kvs. None)\<rparr>"

section \<open>The browser's project list\<close>

text \<open>
  The root component holds the list of projects. Each mutation sends a request and, when
  the promise chain \<^verbatim>\<open>fetch(...).then(res => res.json()).then(...)\<close> gets through,
  replaces the list; \<^verbatim>\<open>.catch\<close> logs and leaves the list alone. The outcome of the
  request is an input: \<^verbatim>\<open>fetch\<close> rejects (no answer from the network), or there is
  an answer with a status and a body, which \<^verbatim>\<open>res.json()\<close> parses (\<open>None\<close>: the body
  is no JSON, such as the empty one). The API's JSON bodies for these requests are
  objects, and so are the entries of the list.
\<close>

datatype fetched = Rejected | Answered nat "jsobj option"

text \<open>
  \<^verbatim>\<open>a === b\<close>. An array or an object is identical only to itself; the two sides
  compared below come from different parsed bodies, so two of them are never identical.
\<close>

fun strict_eq :: "jsval \<Rightarrow> jsval \<Rightarrow> bool" where
  "strict_eq JUndefined JUndefined = True"
| "strict_eq JNull JNull = True"
| "strict_eq (JBool a) (JBool b) = (a = b)"
| "strict_eq (JNum a) (JNum b) = (a = b)"
| "strict_eq (JStr a) (JStr b) = (a = b)"
| "strict_eq _ _ = False"

text \<open>\<^verbatim>\<open>addProject\<close>: the list after the request has come back.\<close>

definition addProject :: "jsobj list \<Rightarrow> fetched \<Rightarrow> jsobj list" where
  "addProject prev r =
     (case r of
        Rejected \<Rightarrow> prev
      | Answered st None \<Rightarrow> prev
      | Answered st (Some newProject) \<Rightarrow> prev @ [newProject])"

text \<open>\<^verbatim>\<open>deleteProject\<close>; the id is a number, the \<^verbatim>\<open>p.id\<close> of a listed row.\<close>

definition deleteProject :: "jsobj list \<Rightarrow> rat \<Rightarrow> fetched \<Rightarrow> jsobj list" where
  "deleteProject prev i r =
     (case r of
        Rejected \<Rightarrow> prev
      | Answered st None \<Rightarrow> prev
      | Answered st (Some ok) \<Rightarrow> filter (\<lambda>p. \<not> strict_eq (js_get p ''id'') (JNum i)) prev)"

text \<open>
  \<^verbatim>\<open>{ ...project, finished: project.finished ? 0 : 1 }\<close>, the body that
  \<^verbatim>\<open>toggleFinished\<close> sends.
\<close>

fun js_set :: "jsobj \<Rightarrow> string \<Rightarrow> jsval \<Rightarrow> jsobj" where
  "js_set [] k v = [(k, v)]"
| "js_set ((k', v') # kvs) k v = (if k' = k then (k, v) # kvs else (k', v') # js_set kvs k v)"

definition updated :: "jsobj \<Rightarrow> jsobj" where
  "updated project =
     js_set project ''finished'' (JNum (if truthy (js_get project ''finished'') then 0 else 1))"

text \<open>\<^verbatim>\<open>toggleFinished\<close>: the list after the request has come back.\<close>

definition toggleFinished :: "jsobj list \<Rightarrow> fetched \<Rightarrow> jsobj list" where
  "toggleFinished prev r =
     (case r of
        Rejected \<Rightarrow> prev
      | Answered st None \<Rightarrow> prev
      | Answered st (Some updatedRow) \<Rightarrow>
          map (\<lambda>p. if strict_eq (js_get p ''id'') (js_get updatedRow ''id'') then updatedRow else p)
              prev)"

section \<open>The clients view\<close>

text \<open>
  \<^verbatim>\<open>String.prototype.trim\<close> removes white space and line terminators at both ends:
  among the 8-bit code units, TAB, LF, VT, FF, CR, space and the no-break space.
\<close>

definition whitespace :: "char \<Rightarrow> bool" where
  "whitespace c = (c \<in> set [CHR 0x09, CHR 0x0A, CHR 0x0B, CHR 0x0C, CHR 0x0D, CHR 0x20, CHR 0xA0])"

definition trim :: "string \<Rightarrow> string" where
  "trim s = rev (dropWhile whitespace (rev (dropWhile whitespace s)))"

datatype js_error = TypeError

text \<open>
  \<^verbatim>\<open>(p.client || '').trim()\<close>: a truthy value that is no string has no method
  \<^verbatim>\<open>trim\<close>, and the call throws.
\<close>

definition client_key :: "jsobj \<Rightarrow> js_error + string" where
  "client_key p =
     (case js_or (js_get p ''client'') (JStr []) of
        JStr s \<Rightarrow> Inr (trim s)
      | _ \<Rightarrow> Inl TypeError)"

text \<open>
  \<^verbatim>\<open>clientMap\<close> starts as \<^verbatim>\<open>{}\<close>: its own properties are the clients entered so
  far, each with a contact and a count, and it inherits the properties of
  \<^verbatim>\<open>Object.prototype\<close>, whose names are listed here and whose values are all truthy.
\<close>

type_synonym clientMap = "(string \<times> (jsval \<times> nat)) list"

definition inherited :: "string list" where
  "inherited =
     [''constructor'', ''__proto__'', ''hasOwnProperty'', ''isPrototypeOf'',
      ''propertyIsEnumerable'', ''toLocaleString'', ''toString'', ''valueOf'',
      ''__defineGetter__'', ''__defineSetter__'', ''__lookupGetter__'', ''__lookupSetter__'']"

text \<open>
  The body of the \<^verbatim>\<open>forEach\<close>. When \<^verbatim>\<open>clientMap[key]\<close> is an inherited property,
  it is truthy, the \<^verbatim>\<open>else\<close> branch writes \<^verbatim>\<open>count\<close> and \<^verbatim>\<open>contact\<close> to the
  inherited object, and \<^verbatim>\<open>clientMap\<close> gets no property of its own. What these writes do
  to later reads of other objects is outside the model.
\<close>

definition visit :: "clientMap \<Rightarrow> jsobj \<Rightarrow> js_error + clientMap" where
  "visit m p =
     (case client_key p of
        Inl e \<Rightarrow> Inl e
      | Inr key \<Rightarrow>
          if key = [] then Inr m
          else
            (case map_of m key of
               None \<Rightarrow>
                 if key \<in> set inherited then Inr m
                 else Inr (m @ [(key, (js_or (js_get p ''contact'') (JStr []), 1))])
             | Some (c, n) \<Rightarrow>
                 Inr (map (\<lambda>(k, e).
                        if k = key
                        then (k, (if \<not> truthy c \<and> truthy (js_get p ''contact'')
                                  then js_get p ''contact'' else c,
                                  n + 1))
                        else (k, e)) m)))"

fun forEach :: "clientMap \<Rightarrow> jsobj list \<Rightarrow> js_error + clientMap" where
  "forEach m [] = Inr m"
| "forEach m (p # ps) = (case visit m p of Inl e \<Rightarrow> Inl e | Inr m' \<Rightarrow> forEach m' ps)"

text \<open>
  The array \<^verbatim>\<open>clients\<close> that \<^verbatim>\<open>ClientsPage\<close> renders, one row each. The entries are
  given in insertion order; \<^verbatim>\<open>Object.keys\<close> lists keys that are array indices first.
  The theorems below do not depend on the order.
\<close>

definition ClientsPage :: "jsobj list \<Rightarrow> js_error + jsobj list" where
  "ClientsPage ps =
     (case forEach [] ps of
        Inl e \<Rightarrow> Inl e
      | Inr clientMap \<Rightarrow>
          Inr (map (\<lambda>(k, (c, n)). [(''name'', JStr k), (''contact'', c), (''count'', JNum (of_nat n))])
                   clientMap))"

text \<open>
  The view as the specification words it, for comparison: the group of a client name is
  the projects whose trimmed client is that name, in list order; its count is the size
  of the group, its contact the first truthy contact in the group, the empty string when
  there is none.
\<close>

definition spec_group :: "jsobj list \<Rightarrow> string \<Rightarrow> jsobj list" where
  "spec_group ps k = filter (\<lambda>p. client_key p = Inr k) ps"

definition spec_count :: "jsobj list \<Rightarrow> string \<Rightarrow> nat" where
  "spec_count ps k = length (spec_group ps k)"

definition spec_contact :: "jsobj list \<Rightarrow> string \<Rightarrow> jsval" where
  "spec_contact ps k =
     (case find truthy (map (\<lambda>p. js_get p ''contact'') (spec_group ps k)) of
        None \<Rightarrow> JStr []
      | Some v \<Rightarrow> v)"

definition spec_entry :: "jsobj list \<Rightarrow> string \<Rightarrow> jsobj" where
  "spec_entry ps k =
     [(''name'', JStr k), (''contact'', spec_contact ps k),
      (''count'', JNum (of_nat (spec_count ps k)))]"

section \<open>Evaluation\<close>

lemmas api_eval =
  post_project_def put_project_def delete_project_def get_projects_def
  sql_insert_def sql_update_def sql_get_def sql_delete_def not_null_ok_def max_id_def
  with_id_def matches_def text_column_def real_column_def int_column_def run_params_def
  param_def insert_cols_def finished_flag_def js_or_def
  js_get_def row_json_def row_body_def error_doc_def empty_store_def sample_engine_def Let_def

lemmas view_eval =
  ClientsPage_def visit_def client_key_def js_or_def js_get_def trim_def whitespace_def
  inherited_def spec_entry_def spec_contact_def spec_count_def spec_group_def

section \<open>Validation on create\<close>

text \<open>
  C1. A create request whose title, deadline or person is absent or the empty string is
  answered with status 400 and the error message, and the store is the one before the
  request, so the list endpoint answers as it did before.
\<close>

theorem create_missing_required_rejected:
  assumes "js_get b ''title'' \<in> {JUndefined, JStr []}
         \<or> js_get b ''deadline'' \<in> {JUndefined, JStr []}
         \<or> js_get b ''person'' \<in> {JUndefined, JStr []}"
  shows "post_project eng s b =
           (s, Response 400 (Doc [(''error'', JStr ''Title, deadline and person are required'')]))
       \<and> get_projects (fst (post_project eng s b)) = get_projects s"
  using assms by (auto simp: post_project_def error_doc_def Let_def)

theorem create_missing_required_rejected_witness:
  "js_get [(''deadline'', JStr ''2024-12-01''), (''person'', JStr ''Alice'')] ''title''
     \<in> {JUndefined, JStr []}
   \<and> post_project sample_engine empty_store
         [(''deadline'', JStr ''2024-12-01''), (''person'', JStr ''Alice'')] =
       (empty_store,
        Response 400 (Doc [(''error'', JStr ''Title, deadline and person are required'')]))
   \<and> get_projects (fst (post_project sample_engine empty_store
         [(''deadline'', JStr ''2024-12-01''), (''person'', JStr ''Alice'')])) =
       get_projects empty_store"
proof -
  have h: "js_get [(''deadline'', JStr ''2024-12-01''), (''person'', JStr ''Alice'')] ''title''
             \<in> {JUndefined, JStr []}"
    by (simp add: js_get_def)
  show ?thesis
    using h create_missing_required_rejected
            [of "[(''deadline'', JStr ''2024-12-01''), (''person'', JStr ''Alice'')]"
                sample_engine empty_store]
    by blast
qed

section \<open>Successful create\<close>

lemma id_col_with_id: "id_col (with_id i c) = i"
  by (simp add: with_id_def)

lemma max_id_ge: "r \<in> set rs \<Longrightarrow> id_col r \<le> max_id rs"
  unfolding max_id_def Max.set_eq_fold[symmetric] by (simp add: Max_ge)

lemma max_id_nonneg: "0 \<le> max_id rs"
  unfolding max_id_def Max.set_eq_fold[symmetric] by simp

lemma find_append_new: "\<forall>r \<in> set rs. \<not> P r \<Longrightarrow> P x \<Longrightarrow> find P (rs @ [x]) = Some x"
  by (induction rs) auto

lemma sql_insert_ok:
  assumes "not_null_ok c"
  shows "sql_insert s c =
           Inr (\<lparr>projects = projects s @ [with_id (max (sqlite_sequence s) (max_id (projects s)) + 1) c],
                 sqlite_sequence = max (sqlite_sequence s) (max_id (projects s)) + 1\<rparr>,
                max (sqlite_sequence s) (max_id (projects s)) + 1)"
  using assms by (simp add: sql_insert_def Let_def)

lemma sql_get_inserted:
  assumes "max_id rs < i"
  shows "sql_get \<lparr>projects = rs @ [with_id i c], sqlite_sequence = n\<rparr> (Some i) = Some (with_id i c)"
proof -
  have "\<forall>r \<in> set rs. \<not> matches (Some i) r"
    using assms max_id_ge by (fastforce simp: matches_def)
  moreover have "matches (Some i) (with_id i c)"
    by (simp add: matches_def with_id_def)
  ultimately show ?thesis
    by (simp add: sql_get_def find_append_new)
qed

lemma sql_update_seq: "sql_update s i c = Inr s' \<Longrightarrow> sqlite_sequence s' = sqlite_sequence s"
  by (auto simp: sql_update_def split: if_splits)

lemma sql_update_ids: "sql_update s i c = Inr s' \<Longrightarrow> map id_col (projects s') = map id_col (projects s)"
  by (auto simp: sql_update_def with_id_def split: if_splits)

text \<open>A create leaves the store as it is or appends one row with the next id.\<close>

lemma post_project_store:
  "fst (post_project eng s b) = s
   \<or> (\<exists>c. fst (post_project eng s b) =
            \<lparr>projects = projects s
                         @ [with_id (max (sqlite_sequence s) (max_id (projects s)) + 1) c],
             sqlite_sequence = max (sqlite_sequence s) (max_id (projects s)) + 1\<rparr>)"
  by (auto simp: post_project_def sql_insert_def Let_def split: option.splits if_splits)

lemma handle_seq_mono: "sqlite_sequence s \<le> sqlite_sequence (fst (handle eng s q))"
proof (cases q)
  case (PostProject b)
  then show ?thesis
    using post_project_store [of eng s b] by auto
next
  case (PutProject i b)
  then show ?thesis
    by (auto simp: put_project_def dest: sql_update_seq split: sum.splits)
qed (simp_all add: delete_project_def sql_delete_def)

lemma handle_seq_ok:
  assumes "seq_ok s"
  shows "seq_ok (fst (handle eng s q))"
proof (cases q)
  case GetProjects
  then show ?thesis using assms by simp
next
  case (PostProject b)
  let ?i = "max (sqlite_sequence s) (max_id (projects s)) + 1"
  consider (same) "fst (post_project eng s b) = s"
    | (new) c where "fst (post_project eng s b) =
                       \<lparr>projects = projects s @ [with_id ?i c], sqlite_sequence = ?i\<rparr>"
    using post_project_store [of eng s b] by blast
  then have "seq_ok (fst (post_project eng s b))"
  proof cases
    case same
    then show ?thesis using assms by simp
  next
    case new
    have "id_col r \<le> ?i" if "r \<in> set (projects s)" for r
    proof -
      have "id_col r \<le> sqlite_sequence s"
        using assms that by (simp add: seq_ok_def list_all_iff)
      then show ?thesis by simp
    qed
    then show ?thesis
      by (simp add: new seq_ok_def list_all_iff id_col_with_id)
  qed
  then show ?thesis using PostProject by simp
next
  case (PutProject i b)
  then show ?thesis using assms
    by (auto simp: put_project_def sql_update_def seq_ok_def list_all_iff with_id_def
             split: sum.splits if_splits)
next
  case (DeleteProject i)
  then show ?thesis using assms
    by (auto simp: delete_project_def sql_delete_def seq_ok_def list_all_iff)
qed

lemma run_append: "run eng s (qs @ qs') = run eng (run eng s qs) qs'"
  by (induction qs arbitrary: s) auto

lemma run_seq_mono: "sqlite_sequence s \<le> sqlite_sequence (run eng s qs)"
proof (induction qs arbitrary: s)
  case (Cons q qs)
  have "sqlite_sequence s \<le> sqlite_sequence (fst (handle eng s q))"
    by (rule handle_seq_mono)
  also have "\<dots> \<le> sqlite_sequence (run eng (fst (handle eng s q)) qs)"
    by (rule Cons.IH)
  finally show ?case by simp
qed simp

lemma run_seq_ok: "seq_ok s \<Longrightarrow> seq_ok (run eng s qs)"
  by (induction qs arbitrary: s) (auto intro: handle_seq_ok)

lemma earlier_ids_bounded:
  assumes "seq_ok s0" and "r \<in> set (projects (run eng s0 (take k qs)))"
  shows "id_col r \<le> sqlite_sequence (run eng s0 qs)"
proof -
  have "seq_ok (run eng s0 (take k qs))"
    using assms(1) by (rule run_seq_ok)
  then have "id_col r \<le> sqlite_sequence (run eng s0 (take k qs))"
    using assms(2) by (simp add: seq_ok_def list_all_iff)
  also have "\<dots> \<le> sqlite_sequence (run eng (run eng s0 (take k qs)) (drop k qs))"
    by (rule run_seq_mono)
  also have "\<dots> = sqlite_sequence (run eng s0 qs)"
    by (simp add: run_append [symmetric])
  finally show ?thesis .
qed


lemma text_column_str: "text_column eng (JStr x) = SText x"
  by (simp add: text_column_def)

lemma real_column_num: "real_column eng (JNum n) = SNum n"
  by (simp add: real_column_def)

lemma js_or_undefined: "js_or JUndefined v = v"
  by (simp add: js_or_def)

lemma post_project_accepts:
  assumes "js_get b ''title'' = JStr t" "t \<noteq> []"
      and "js_get b ''deadline'' = JStr d" "d \<noteq> []"
      and "js_get b ''person'' = JStr p" "p \<noteq> []"
      and "c = \<lparr>title = SText t,
                 description = text_column eng (js_or (js_get b ''description'') (JStr [])),
                 deadline = SText d,
                 person = SText p,
                 client = text_column eng (js_or (js_get b ''client'') (JStr [])),
                 contact = text_column eng (js_or (js_get b ''contact'') (JStr [])),
                 achievements = real_column eng (js_or (js_get b ''achievements'') (JNum 0)),
                 price = real_column eng (js_or (js_get b ''price'') (JNum 0)),
                 finished = finished_flag (js_get b ''finished'')\<rparr>"
      and "i = max (sqlite_sequence s) (max_id (projects s)) + 1"
  shows "post_project eng s b =
           (\<lparr>projects = projects s @ [with_id i c], sqlite_sequence = i\<rparr>,
            Response 201 (Doc (row_json (with_id i c))))"
proof -
  have nn: "not_null_ok c"
    using assms(7) by (simp add: not_null_ok_def)
  have "max_id (projects s) < i"
    using assms(8) by simp
  then have get: "sql_get \<lparr>projects = projects s @ [with_id i c], sqlite_sequence = i\<rparr> (Some i)
                  = Some (with_id i c)"
    by (rule sql_get_inserted)
  have ins: "sql_insert s c = Inr (\<lparr>projects = projects s @ [with_id i c], sqlite_sequence = i\<rparr>, i)"
    using sql_insert_ok [OF nn, of s] assms(8) by simp
  let ?args = "[JStr t,
                js_or (js_get b ''description'') (JStr []),
                JStr d,
                JStr p,
                js_or (js_get b ''client'') (JStr []),
                js_or (js_get b ''contact'') (JStr []),
                js_or (js_get b ''achievements'') (JNum 0),
                js_or (js_get b ''price'') (JNum 0),
                JNum (if truthy (js_get b ''finished'') then 1 else 0)]"
  have params: "run_params eng ?args = Some ?args"
    by (simp add: run_params_def)
  have cols: "insert_cols eng ?args = c"
    by (simp add: insert_cols_def param_def assms(7) text_column_str int_column_def
                  finished_flag_def)
  show ?thesis
    using assms(1-6) ins get
    by (simp add: post_project_def Let_def row_body_def params cols)
qed

text \<open>
  When title, deadline and person are non-empty strings, create does what is expected of
  it: served in any state the API has reached, it appends exactly one row, whose id is in
  no earlier state of the table, and answers with status 201 and that row: the three
  required values as sent; description, client and contact the empty string and
  achievements and price 0 when omitted; finished 1 if the value sent is truthy and 0
  otherwise.
\<close>

lemma create_valid_persists:
  assumes "js_get b ''title'' = JStr t" "t \<noteq> []"
      and "js_get b ''deadline'' = JStr d" "d \<noteq> []"
      and "js_get b ''person'' = JStr p" "p \<noteq> []"
      and "seq_ok s0" and "s = run eng s0 qs"
  shows "\<exists>r. post_project eng s b =
               (\<lparr>projects = projects s @ [r], sqlite_sequence = id_col r\<rparr>,
                Response 201 (Doc (row_json r)))
           \<and> (\<forall>k. id_col r \<notin> id_col ` set (projects (run eng s0 (take k qs))))
           \<and> title r = SText t \<and> deadline r = SText d \<and> person r = SText p
           \<and> (js_get b ''description'' = JUndefined \<longrightarrow> description r = SText [])
           \<and> (js_get b ''client'' = JUndefined \<longrightarrow> client r = SText [])
           \<and> (js_get b ''contact'' = JUndefined \<longrightarrow> contact r = SText [])
           \<and> (js_get b ''achievements'' = JUndefined \<longrightarrow> achievements r = SNum 0)
           \<and> (js_get b ''price'' = JUndefined \<longrightarrow> price r = SNum 0)
           \<and> finished r = SNum (if truthy (js_get b ''finished'') then 1 else 0)"
proof -
  define c where "c = \<lparr>title = SText t,
                 description = text_column eng (js_or (js_get b ''description'') (JStr [])),
                 deadline = SText d,
                 person = SText p,
                 client = text_column eng (js_or (js_get b ''client'') (JStr [])),
                 contact = text_column eng (js_or (js_get b ''contact'') (JStr [])),
                 achievements = real_column eng (js_or (js_get b ''achievements'') (JNum 0)),
                 price = real_column eng (js_or (js_get b ''price'') (JNum 0)),
                 finished = finished_flag (js_get b ''finished'')\<rparr>"
  define i where "i = max (sqlite_sequence s) (max_id (projects s)) + 1"
  define r where "r = with_id i c"
  have idr: "id_col r = i"
    by (simp add: r_def with_id_def)
  have post: "post_project eng s b =
               (\<lparr>projects = projects s @ [r], sqlite_sequence = id_col r\<rparr>,
                Response 201 (Doc (row_json r)))"
    using post_project_accepts [OF assms(1-6) c_def i_def] idr
    by (simp add: r_def)
  have fresh: "id_col r \<notin> id_col ` set (projects (run eng s0 (take k qs)))" for k
  proof
    assume "id_col r \<in> id_col ` set (projects (run eng s0 (take k qs)))"
    then obtain x where x: "x \<in> set (projects (run eng s0 (take k qs)))" "id_col x = id_col r"
      by auto
    have "id_col x \<le> sqlite_sequence s"
      unfolding assms(8) using assms(7) x(1) by (rule earlier_ids_bounded)
    then show False
      using x(2) idr i_def by simp
  qed
  have fields: "title r = SText t" "deadline r = SText d" "person r = SText p"
    "js_get b ''description'' = JUndefined \<longrightarrow> description r = SText []"
    "js_get b ''client'' = JUndefined \<longrightarrow> client r = SText []"
    "js_get b ''contact'' = JUndefined \<longrightarrow> contact r = SText []"
    "js_get b ''achievements'' = JUndefined \<longrightarrow> achievements r = SNum 0"
    "js_get b ''price'' = JUndefined \<longrightarrow> price r = SNum 0"
    "finished r = SNum (if truthy (js_get b ''finished'') then 1 else 0)"
    by (simp_all add: r_def c_def with_id_def js_or_undefined text_column_str real_column_num
                      finished_flag_def)
  show ?thesis
    using post fresh fields by blast
qed

text \<open>After two creates and the delete of the second row, the next create gets id 3, not 2.\<close>

lemma create_after_history:
  "\<exists>r. post_project sample_engine
          (run sample_engine empty_store
             [PostProject [(''title'', JStr ''Website''), (''deadline'', JStr ''2024-12-01''),
                           (''person'', JStr ''Alice'')],
              PostProject [(''title'', JStr ''Shop''), (''deadline'', JStr ''2025-01-31''),
                           (''person'', JStr ''Bob'')],
              DeleteProject (Some 2)])
          [(''title'', JStr ''Blog''), (''deadline'', JStr ''2025-03-01''),
           (''person'', JStr ''Carol''), (''finished'', JBool True)] =
        (\<lparr>projects =
            [\<lparr>title = SText ''Website'', description = SText [],
               deadline = SText ''2024-12-01'', person = SText ''Alice'', client = SText [],
               contact = SText [], achievements = SNum 0, price = SNum 0, finished = SNum 0,
               id_col = 1\<rparr>,
             r],
          sqlite_sequence = 3\<rparr>,
         Response 201 (Doc (row_json r)))
      \<and> id_col r = 3
      \<and> title r = SText ''Blog'' \<and> deadline r = SText ''2025-03-01''
      \<and> person r = SText ''Carol''
      \<and> description r = SText [] \<and> client r = SText [] \<and> contact r = SText []
      \<and> achievements r = SNum 0 \<and> price r = SNum 0 \<and> finished r = SNum 1"
proof -
  let ?qs = "[PostProject [(''title'', JStr ''Website''), (''deadline'', JStr ''2024-12-01''),
                           (''person'', JStr ''Alice'')],
              PostProject [(''title'', JStr ''Shop''), (''deadline'', JStr ''2025-01-31''),
                           (''person'', JStr ''Bob'')],
              DeleteProject (Some 2)]"
  let ?b = "[(''title'', JStr ''Blog''), (''deadline'', JStr ''2025-03-01''),
             (''person'', JStr ''Carol''), (''finished'', JBool True)]"
  let ?s = "run sample_engine empty_store ?qs"
  have s: "?s = \<lparr>projects =
            [\<lparr>title = SText ''Website'', description = SText [],
               deadline = SText ''2024-12-01'', person = SText ''Alice'', client = SText [],
               contact = SText [], achievements = SNum 0, price = SNum 0, finished = SNum 0,
               id_col = 1\<rparr>],
          sqlite_sequence = 2\<rparr>"
    by (simp add: api_eval)
  have "\<exists>r. post_project sample_engine ?s ?b =
               (\<lparr>projects = projects ?s @ [r], sqlite_sequence = id_col r\<rparr>,
                Response 201 (Doc (row_json r)))
           \<and> (\<forall>k. id_col r \<notin> id_col ` set (projects (run sample_engine empty_store (take k ?qs))))
           \<and> title r = SText ''Blog'' \<and> deadline r = SText ''2025-03-01''
           \<and> person r = SText ''Carol''
           \<and> (js_get ?b ''description'' = JUndefined \<longrightarrow> description r = SText [])
           \<and> (js_get ?b ''client'' = JUndefined \<longrightarrow> client r = SText [])
           \<and> (js_get ?b ''contact'' = JUndefined \<longrightarrow> contact r = SText [])
           \<and> (js_get ?b ''achievements'' = JUndefined \<longrightarrow> achievements r = SNum 0)
           \<and> (js_get ?b ''price'' = JUndefined \<longrightarrow> price r = SNum 0)
           \<and> finished r = SNum (if truthy (js_get ?b ''finished'') then 1 else 0)"
    by (rule create_valid_persists
              [of ?b "''Blog''" "''2025-03-01''" "''Carol''" empty_store ?s sample_engine ?qs])
       (simp_all add: js_get_def seq_ok_def empty_store_def)
  then obtain r where r:
    "post_project sample_engine ?s ?b =
       (\<lparr>projects = projects ?s @ [r], sqlite_sequence = id_col r\<rparr>,
        Response 201 (Doc (row_json r)))"
    "title r = SText ''Blog''" "deadline r = SText ''2025-03-01''" "person r = SText ''Carol''"
    "description r = SText []" "client r = SText []" "contact r = SText []"
    "achievements r = SNum 0" "price r = SNum 0" "finished r = SNum 1"
    by (auto simp: js_get_def)
  have "sqlite_sequence (fst (post_project sample_engine ?s ?b)) = 3"
    unfolding s by (simp add: api_eval)
  then have id3: "id_col r = 3"
    unfolding r(1) by simp
  have "post_project sample_engine ?s ?b =
          (\<lparr>projects = projects ?s @ [r], sqlite_sequence = 3\<rparr>,
           Response 201 (Doc (row_json r)))"
    using r(1) unfolding id3 .
  then have post: "post_project sample_engine ?s ?b =
          (\<lparr>projects =
              [\<lparr>title = SText ''Website'', description = SText [],
                 deadline = SText ''2024-12-01'', person = SText ''Alice'', client = SText [],
                 contact = SText [], achievements = SNum 0, price = SNum 0, finished = SNum 0,
                 id_col = 1\<rparr>,
               r],
            sqlite_sequence = 3\<rparr>,
           Response 201 (Doc (row_json r)))"
    unfolding s by simp
  show ?thesis
    by (rule exI [of _ r]) (intro conjI post id3 r(2-10))
qed

text \<open>
  C2 does not hold of the code. A title that is an array is truthy and passes the presence
  check, and \<^verbatim>\<open>stmt.run\<close> takes it as the whole parameter list, ignoring the other
  eight arguments. In this request description and finished are omitted and person is
  Alice; the record persisted and returned has description D, person P and finished 7.
\<close>

theorem create_array_title_takes_over_record:
  "post_project eng empty_store
     [(''title'', JArr [JStr ''T'', JStr ''D'', JStr ''2024-12-01'', JStr ''P'', JStr ''C'',
                        JStr ''CT'', JNum 1, JNum 2, JNum 7]),
      (''deadline'', JStr ''2024-12-01''), (''person'', JStr ''Alice'')] =
   (\<lparr>projects =
       [\<lparr>title = SText ''T'', description = SText ''D'', deadline = SText ''2024-12-01'',
          person = SText ''P'', client = SText ''C'', contact = SText ''CT'',
          achievements = SNum 1, price = SNum 2, finished = SNum 7, id_col = 1\<rparr>],
     sqlite_sequence = 1\<rparr>,
    Response 201
      (Doc [(''id'', JNum 1), (''title'', JStr ''T''), (''description'', JStr ''D''),
            (''deadline'', JStr ''2024-12-01''), (''person'', JStr ''P''),
            (''client'', JStr ''C''), (''contact'', JStr ''CT''), (''achievements'', JNum 1),
            (''price'', JNum 2), (''finished'', JNum 7)]))"
  by (simp add: post_project_def sql_insert_def sql_get_def not_null_ok_def max_id_def
                with_id_def matches_def text_column_def real_column_def int_column_def
                run_params_def param_def insert_cols_def js_get_def row_json_def row_body_def
                empty_store_def Let_def)

theorem create_array_title_takes_over_record_witness:
  "post_project sample_engine empty_store
     [(''title'', JArr [JStr ''T'', JStr ''D'', JStr ''2024-12-01'', JStr ''P'', JStr ''C'',
                        JStr ''CT'', JNum 1, JNum 2, JNum 7]),
      (''deadline'', JStr ''2024-12-01''), (''person'', JStr ''Alice'')] =
   (\<lparr>projects =
       [\<lparr>title = SText ''T'', description = SText ''D'', deadline = SText ''2024-12-01'',
          person = SText ''P'', client = SText ''C'', contact = SText ''CT'',
          achievements = SNum 1, price = SNum 2, finished = SNum 7, id_col = 1\<rparr>],
     sqlite_sequence = 1\<rparr>,
    Response 201
      (Doc [(''id'', JNum 1), (''title'', JStr ''T''), (''description'', JStr ''D''),
            (''deadline'', JStr ''2024-12-01''), (''person'', JStr ''P''),
            (''client'', JStr ''C''), (''contact'', JStr ''CT''), (''achievements'', JNum 1),
            (''price'', JNum 2), (''finished'', JNum 7)]))"
  by (rule create_array_title_takes_over_record)

section \<open>Update\<close>

lemma find_replaced:
  "x \<in> set rs \<Longrightarrow> id_col x = i \<Longrightarrow>
   find (\<lambda>r. id_col r = i) (map (\<lambda>r. if id_col r = i then with_id i c else r) rs)
     = Some (with_id i c)"
  by (induction rs) (auto simp: id_col_with_id)

text \<open>
  The update handler validates nothing, but the table does: a replacement record with no
  title, deadline or person (absent or \<^verbatim>\<open>null\<close>) for an existing row is refused.
\<close>

lemma update_null_required_rejected:
  assumes "x \<in> set (projects s)" "id_col x = i"
      and "js_get b ''title'' \<in> {JNull, JUndefined}
         \<or> js_get b ''deadline'' \<in> {JNull, JUndefined}
         \<or> js_get b ''person'' \<in> {JNull, JUndefined}"
  shows "put_project eng s (Some i) b =
           (s, Response 500 (Doc [(''error'', JStr ''Database update error'')]))"
proof -
  have "\<exists>r \<in> set (projects s). matches (Some i) r"
    using assms(1,2) by (auto simp: matches_def)
  moreover have "\<not> not_null_ok
             \<lparr>title = text_column eng (js_get b ''title''),
              description = text_column eng (js_get b ''description''),
              deadline = text_column eng (js_get b ''deadline''),
              person = text_column eng (js_get b ''person''),
              client = text_column eng (js_get b ''client''),
              contact = text_column eng (js_get b ''contact''),
              achievements = real_column eng (js_get b ''achievements''),
              price = real_column eng (js_get b ''price''),
              finished = finished_flag (js_get b ''finished'')\<rparr>"
    using assms(3) by (auto simp: not_null_ok_def text_column_def)
  ultimately show ?thesis
    by (simp add: put_project_def sql_update_def error_doc_def)
qed

text \<open>
  C3 (as amended). For the id of a row of the table and a replacement record whose title,
  deadline and person are strings (empty ones included: nothing is validated), the update
  answers with status 200 and the updated row, which carries the id and the strings and
  numbers sent, finished as 1 if the value sent is truthy and 0 otherwise. Afterwards
  the table holds the updated row, and every row of that id is the updated one.
\<close>

theorem update_existing_replaces:
  assumes "x \<in> set (projects s)" "id_col x = i"
      and "js_get b ''title'' = JStr t"
      and "js_get b ''deadline'' = JStr d"
      and "js_get b ''person'' = JStr p"
  shows "\<exists>u. put_project eng s (Some i) b =
               (s\<lparr>projects := map (\<lambda>r. if id_col r = i then u else r) (projects s)\<rparr>,
                Response 200 (Doc (row_json u)))
           \<and> id_col u = i
           \<and> title u = SText t \<and> deadline u = SText d \<and> person u = SText p
           \<and> (\<forall>v. js_get b ''description'' = JStr v \<longrightarrow> description u = SText v)
           \<and> (\<forall>v. js_get b ''client'' = JStr v \<longrightarrow> client u = SText v)
           \<and> (\<forall>v. js_get b ''contact'' = JStr v \<longrightarrow> contact u = SText v)
           \<and> (\<forall>n. js_get b ''achievements'' = JNum n \<longrightarrow> achievements u = SNum n)
           \<and> (\<forall>n. js_get b ''price'' = JNum n \<longrightarrow> price u = SNum n)
           \<and> finished u = SNum (if truthy (js_get b ''finished'') then 1 else 0)
           \<and> u \<in> set (projects (fst (put_project eng s (Some i) b)))
           \<and> (\<forall>r \<in> set (projects (fst (put_project eng s (Some i) b))). id_col r = i \<longrightarrow> r = u)"
proof -
  define c where "c = \<lparr>title = text_column eng (js_get b ''title''),
              description = text_column eng (js_get b ''description''),
              deadline = text_column eng (js_get b ''deadline''),
              person = text_column eng (js_get b ''person''),
              client = text_column eng (js_get b ''client''),
              contact = text_column eng (js_get b ''contact''),
              achievements = real_column eng (js_get b ''achievements''),
              price = real_column eng (js_get b ''price''),
              finished = finished_flag (js_get b ''finished'')\<rparr>"
  define u where "u = with_id i c"
  have m: "matches (Some i) = (\<lambda>r. id_col r = i)"
    by (auto simp: matches_def fun_eq_iff)
  have nn: "not_null_ok c"
    using assms(3-5) by (simp add: c_def not_null_ok_def text_column_str)
  have upd: "sql_update s (Some i) c =
               Inr (s\<lparr>projects := map (\<lambda>r. if id_col r = i then u else r) (projects s)\<rparr>)"
    using nn by (simp add: sql_update_def m u_def cong: if_cong)
  have "find (\<lambda>r. id_col r = i) (map (\<lambda>r. if id_col r = i then with_id i c else r) (projects s))
          = Some (with_id i c)"
    using assms(1,2) by (rule find_replaced)
  then have get: "sql_get (s\<lparr>projects := map (\<lambda>r. if id_col r = i then u else r) (projects s)\<rparr>) (Some i)
               = Some u"
    unfolding u_def sql_get_def m by simp
  have put: "put_project eng s (Some i) b =
               (s\<lparr>projects := map (\<lambda>r. if id_col r = i then u else r) (projects s)\<rparr>,
                Response 200 (Doc (row_json u)))"
    using upd get by (simp add: put_project_def c_def [symmetric] row_body_def)
  have fields: "id_col u = i" "title u = SText t" "deadline u = SText d" "person u = SText p"
    "\<forall>v. js_get b ''description'' = JStr v \<longrightarrow> description u = SText v"
    "\<forall>v. js_get b ''client'' = JStr v \<longrightarrow> client u = SText v"
    "\<forall>v. js_get b ''contact'' = JStr v \<longrightarrow> contact u = SText v"
    "\<forall>n. js_get b ''achievements'' = JNum n \<longrightarrow> achievements u = SNum n"
    "\<forall>n. js_get b ''price'' = JNum n \<longrightarrow> price u = SNum n"
    "finished u = SNum (if truthy (js_get b ''finished'') then 1 else 0)"
    using assms(3-5)
    by (simp_all add: u_def c_def with_id_def text_column_str real_column_num finished_flag_def)
  have mem: "u \<in> set (projects (fst (put_project eng s (Some i) b)))"
    using assms(1,2) by (auto simp: put)
  have only: "\<forall>r \<in> set (projects (fst (put_project eng s (Some i) b))). id_col r = i \<longrightarrow> r = u"
    by (auto simp: put)
  show ?thesis
    by (rule exI [of _ u]) (intro conjI put fields mem only)
qed

section \<open>Update of an unknown id\<close>

lemma map_unmatched: "\<forall>r \<in> set rs. \<not> matches pid r \<Longrightarrow>
    map (\<lambda>r. if matches pid r then f r else r) rs = rs"
  by (induction rs) auto

lemma find_unmatched: "\<forall>r \<in> set rs. \<not> P r \<Longrightarrow> find P rs = None"
  by (induction rs) auto

text \<open>
  C4 (as amended). An update whose id matches no row reports no error: the statement
  changes nothing, the fetch that follows finds no row, and the response is status 200
  with an empty body. The store is unchanged.
\<close>

theorem update_unknown_id_silent:
  assumes "\<forall>r \<in> set (projects s). id_col r \<noteq> i"
  shows "put_project eng s (Some i) b = (s, Response 200 NoBody)
       \<and> put_project eng s None b = (s, Response 200 NoBody)"
proof -
  have "\<forall>r \<in> set (projects s). \<not> matches pid r" if "pid = Some i \<or> pid = None" for pid
    using assms that by (auto simp: matches_def)
  then have "put_project eng s pid b = (s, Response 200 NoBody)"
    if "pid = Some i \<or> pid = None" for pid
    using that
    by (simp add: put_project_def sql_update_def sql_get_def map_unmatched find_unmatched
                  row_body_def)
  then show ?thesis by simp
qed


section \<open>Concrete requests\<close>

text \<open>The first create on an empty table: the row gets id 1 and every default.\<close>

lemma website_created:
  "post_project sample_engine empty_store
     [(''title'', JStr ''Website''), (''deadline'', JStr ''2024-12-01''),
      (''person'', JStr ''Alice'')] =
   (\<lparr>projects =
       [\<lparr>title = SText ''Website'', description = SText [], deadline = SText ''2024-12-01'',
         person = SText ''Alice'', client = SText [], contact = SText [],
         achievements = SNum 0, price = SNum 0, finished = SNum 0, id_col = 1\<rparr>],
     sqlite_sequence = 1\<rparr>,
    Response 201
      (Doc [(''id'', JNum 1), (''title'', JStr ''Website''), (''description'', JStr []),
            (''deadline'', JStr ''2024-12-01''), (''person'', JStr ''Alice''),
            (''client'', JStr []), (''contact'', JStr []), (''achievements'', JNum 0),
            (''price'', JNum 0), (''finished'', JNum 0)]))"
  by (simp add: api_eval)

text \<open>
  C3 as stated fails. On the row just created, a replacement record whose title is
  \<^verbatim>\<open>null\<close>, and likewise one that carries nothing but \<^verbatim>\<open>finished: true\<close>, violates
  the \<^verbatim>\<open>NOT NULL\<close> constraint of the title column: the handler answers 500 and the
  row keeps its values, finished included.
\<close>

theorem update_null_title_counterexample:
  "put_project sample_engine
     \<lparr>projects =
       [\<lparr>title = SText ''Website'', description = SText [], deadline = SText ''2024-12-01'',
         person = SText ''Alice'', client = SText [], contact = SText [],
         achievements = SNum 0, price = SNum 0, finished = SNum 0, id_col = 1\<rparr>],
      sqlite_sequence = 1\<rparr>
     (Some 1)
     [(''title'', JNull), (''deadline'', JStr ''2025-01-31''), (''person'', JStr ''Bob'')] =
   (\<lparr>projects =
       [\<lparr>title = SText ''Website'', description = SText [], deadline = SText ''2024-12-01'',
         person = SText ''Alice'', client = SText [], contact = SText [],
         achievements = SNum 0, price = SNum 0, finished = SNum 0, id_col = 1\<rparr>],
     sqlite_sequence = 1\<rparr>,
    Response 500 (Doc [(''error'', JStr ''Database update error'')]))
   \<and> put_project sample_engine
     \<lparr>projects =
       [\<lparr>title = SText ''Website'', description = SText [], deadline = SText ''2024-12-01'',
         person = SText ''Alice'', client = SText [], contact = SText [],
         achievements = SNum 0, price = SNum 0, finished = SNum 0, id_col = 1\<rparr>],
      sqlite_sequence = 1\<rparr>
     (Some 1)
     [(''finished'', JBool True)] =
   (\<lparr>projects =
       [\<lparr>title = SText ''Website'', description = SText [], deadline = SText ''2024-12-01'',
         person = SText ''Alice'', client = SText [], contact = SText [],
         achievements = SNum 0, price = SNum 0, finished = SNum 0, id_col = 1\<rparr>],
     sqlite_sequence = 1\<rparr>,
    Response 500 (Doc [(''error'', JStr ''Database update error'')]))"
  by (simp add: api_eval)

theorem update_existing_replaces_witness:
  "put_project sample_engine
     \<lparr>projects =
       [\<lparr>title = SText ''Website'', description = SText [], deadline = SText ''2024-12-01'',
         person = SText ''Alice'', client = SText [], contact = SText [],
         achievements = SNum 0, price = SNum 0, finished = SNum 0, id_col = 1\<rparr>],
      sqlite_sequence = 1\<rparr>
     (Some 1)
     [(''title'', JStr ''Shop''), (''deadline'', JStr ''2025-01-31''),
      (''person'', JStr ''Bob''), (''price'', JNum 250), (''finished'', JBool True)] =
   (\<lparr>projects =
       [\<lparr>title = SText ''Shop'', description = SNull, deadline = SText ''2025-01-31'',
         person = SText ''Bob'', client = SNull, contact = SNull,
         achievements = SNull, price = SNum 250, finished = SNum 1, id_col = 1\<rparr>],
     sqlite_sequence = 1\<rparr>,
    Response 200
      (Doc [(''id'', JNum 1), (''title'', JStr ''Shop''), (''description'', JNull),
            (''deadline'', JStr ''2025-01-31''), (''person'', JStr ''Bob''),
            (''client'', JNull), (''contact'', JNull), (''achievements'', JNull),
            (''price'', JNum 250), (''finished'', JNum 1)]))"
proof -
  let ?x = "\<lparr>title = SText ''Website'', description = SText [], deadline = SText ''2024-12-01'',
         person = SText ''Alice'', client = SText [], contact = SText [],
         achievements = SNum 0, price = SNum 0, finished = SNum 0, id_col = 1\<rparr>"
  let ?s = "\<lparr>projects = [?x], sqlite_sequence = 1\<rparr>"
  let ?b = "[(''title'', JStr ''Shop''), (''deadline'', JStr ''2025-01-31''),
      (''person'', JStr ''Bob''), (''price'', JNum 250), (''finished'', JBool True)]"
  have "\<exists>u. put_project sample_engine ?s (Some 1) ?b =
               (?s\<lparr>projects := map (\<lambda>r. if id_col r = 1 then u else r) (projects ?s)\<rparr>,
                Response 200 (Doc (row_json u)))
           \<and> id_col u = 1
           \<and> title u = SText ''Shop'' \<and> deadline u = SText ''2025-01-31''
           \<and> person u = SText ''Bob''
           \<and> (\<forall>v. js_get ?b ''description'' = JStr v \<longrightarrow> description u = SText v)
           \<and> (\<forall>v. js_get ?b ''client'' = JStr v \<longrightarrow> client u = SText v)
           \<and> (\<forall>v. js_get ?b ''contact'' = JStr v \<longrightarrow> contact u = SText v)
           \<and> (\<forall>n. js_get ?b ''achievements'' = JNum n \<longrightarrow> achievements u = SNum n)
           \<and> (\<forall>n. js_get ?b ''price'' = JNum n \<longrightarrow> price u = SNum n)
           \<and> finished u = SNum (if truthy (js_get ?b ''finished'') then 1 else 0)
           \<and> u \<in> set (projects (fst (put_project sample_engine ?s (Some 1) ?b)))
           \<and> (\<forall>r \<in> set (projects (fst (put_project sample_engine ?s (Some 1) ?b))).
                 id_col r = 1 \<longrightarrow> r = u)"
    by (rule update_existing_replaces [where x = ?x]) (simp_all add: js_get_def)
  then show ?thesis
    by (simp add: api_eval)
qed

text \<open>
  C4 as stated fails: an update of id 1 on the empty table is answered with status 200
  and an empty body, not with an error.
\<close>

theorem update_unknown_id_counterexample:
  "put_project sample_engine empty_store (Some 1)
     [(''title'', JStr ''Website''), (''deadline'', JStr ''2024-12-01''),
      (''person'', JStr ''Alice'')] =
   (empty_store, Response 200 NoBody)"
  by (simp add: api_eval)

theorem update_unknown_id_silent_witness:
  "put_project sample_engine empty_store (Some 7) [(''title'', JStr ''Website'')] =
     (empty_store, Response 200 NoBody)
   \<and> put_project sample_engine empty_store None [(''title'', JStr ''Website'')] =
     (empty_store, Response 200 NoBody)"
  by (rule update_unknown_id_silent) (simp add: empty_store_def)

section \<open>Delete\<close>

text \<open>
  C5. A delete always answers \<^verbatim>\<open>{ success: true }\<close> with status 200. Afterwards the
  table holds exactly the rows of other ids, in their order and unchanged, so no row of
  the given id is listed; when no row has the id, the store and the list are unchanged.
\<close>

theorem delete_removes_only_that_row:
  "snd (delete_project s pid) = Response 200 (Doc [(''success'', JBool True)])
   \<and> projects (fst (delete_project s pid)) = filter (\<lambda>r. pid \<noteq> Some (id_col r)) (projects s)
   \<and> (\<forall>r \<in> set (projects (fst (delete_project s pid))). pid \<noteq> Some (id_col r))
   \<and> (\<forall>r \<in> set (projects s). pid \<noteq> Some (id_col r) \<longrightarrow>
         r \<in> set (projects (fst (delete_project s pid))))
   \<and> ((\<forall>r \<in> set (projects s). pid \<noteq> Some (id_col r)) \<longrightarrow>
         fst (delete_project s pid) = s
         \<and> get_projects (fst (delete_project s pid)) = get_projects s)"
proof -
  have p: "projects (fst (delete_project s pid)) = filter (\<lambda>r. pid \<noteq> Some (id_col r)) (projects s)"
    by (simp add: delete_project_def sql_delete_def matches_def)
  have same: "fst (delete_project s pid) = s" if "\<forall>r \<in> set (projects s). pid \<noteq> Some (id_col r)"
  proof -
    have "filter (\<lambda>r. \<not> matches pid r) (projects s) = projects s"
      using that by (simp add: matches_def)
    then show ?thesis
      by (simp add: delete_project_def sql_delete_def)
  qed
  show ?thesis
    using same by (simp add: p) (simp add: delete_project_def)
qed

theorem delete_removes_only_that_row_witness:
  "delete_project
     \<lparr>projects =
       [\<lparr>title = SText ''Website'', description = SText [], deadline = SText ''2024-12-01'',
         person = SText ''Alice'', client = SText [], contact = SText [],
         achievements = SNum 0, price = SNum 0, finished = SNum 0, id_col = 1\<rparr>,
        \<lparr>title = SText ''Shop'', description = SText [], deadline = SText ''2025-01-31'',
         person = SText ''Bob'', client = SText [], contact = SText [],
         achievements = SNum 0, price = SNum 0, finished = SNum 1, id_col = 2\<rparr>],
      sqlite_sequence = 2\<rparr> (Some 1) =
   (\<lparr>projects =
       [\<lparr>title = SText ''Shop'', description = SText [], deadline = SText ''2025-01-31'',
         person = SText ''Bob'', client = SText [], contact = SText [],
         achievements = SNum 0, price = SNum 0, finished = SNum 1, id_col = 2\<rparr>],
      sqlite_sequence = 2\<rparr>,
    Response 200 (Doc [(''success'', JBool True)]))"
proof -
  let ?s = "\<lparr>projects =
       [\<lparr>title = SText ''Website'', description = SText [], deadline = SText ''2024-12-01'',
         person = SText ''Alice'', client = SText [], contact = SText [],
         achievements = SNum 0, price = SNum 0, finished = SNum 0, id_col = 1\<rparr>,
        \<lparr>title = SText ''Shop'', description = SText [], deadline = SText ''2025-01-31'',
         person = SText ''Bob'', client = SText [], contact = SText [],
         achievements = SNum 0, price = SNum 0, finished = SNum 1, id_col = 2\<rparr>],
      sqlite_sequence = 2\<rparr>"
  have a: "snd (delete_project ?s (Some 1)) = Response 200 (Doc [(''success'', JBool True)])"
   and b: "projects (fst (delete_project ?s (Some 1)))
             = filter (\<lambda>r. Some 1 \<noteq> Some (id_col r)) (projects ?s)"
    using delete_removes_only_that_row [of ?s "Some 1"] by blast+
  have c: "sqlite_sequence (fst (delete_project ?s (Some 1))) = 2"
    by (simp add: delete_project_def sql_delete_def)
  have "fst (delete_project ?s (Some 1)) =
          \<lparr>projects = filter (\<lambda>r. Some 1 \<noteq> Some (id_col r)) (projects ?s), sqlite_sequence = 2\<rparr>"
    using b c by (cases "fst (delete_project ?s (Some 1))") simp
  then show ?thesis
    using a by (simp add: prod_eq_iff)
qed

text \<open>
  C6. Delete is idempotent: a second delete of the same id leaves the store of the first,
  answers as the first did, and the list endpoint answers the same.
\<close>

theorem delete_idempotent:
  "fst (delete_project (fst (delete_project s pid)) pid) = fst (delete_project s pid)
   \<and> snd (delete_project (fst (delete_project s pid)) pid) = snd (delete_project s pid)
   \<and> get_projects (fst (delete_project (fst (delete_project s pid)) pid))
       = get_projects (fst (delete_project s pid))"
  by (simp add: delete_project_def sql_delete_def)

section \<open>The completion flag\<close>

lemma finished_flag_cases: "finished_flag v = SNum 0 \<or> finished_flag v = SNum 1"
  by (simp add: finished_flag_def)

lemma run_params_scalar:
  assumes "scalar_title b"
  shows "run_params eng (js_get b ''title'' # rest) = Some (js_get b ''title'' # rest)"
  using assms by (cases "js_get b ''title''") (simp_all add: scalar_title_def run_params_def)

lemma post_project_finished:
  assumes "r \<in> set (projects (fst (post_project eng s b)))" and "scalar_title b"
  shows "r \<in> set (projects s) \<or> finished r = SNum 0 \<or> finished r = SNum 1"
  using assms(1)
  by (auto simp: post_project_def Let_def run_params_scalar [OF assms(2)] sql_insert_def
                 insert_cols_def param_def int_column_def with_id_def
           split: if_splits)

lemma handle_finished:
  assumes "r \<in> set (projects (fst (handle eng s q)))" and "scalar_request q"
  shows "r \<in> set (projects s) \<or> finished r = SNum 0 \<or> finished r = SNum 1"
proof (cases q)
  case GetProjects
  then show ?thesis using assms by simp
next
  case (PostProject b)
  then show ?thesis using assms post_project_finished [of r eng s b] by simp
next
  case (PutProject i b)
  then show ?thesis using assms finished_flag_cases [of "js_get b ''finished''"]
    by (auto simp: put_project_def sql_update_def with_id_def split: sum.splits if_splits)
next
  case (DeleteProject i)
  then show ?thesis using assms
    by (auto simp: delete_project_def sql_delete_def)
qed

text \<open>
  As long as no create request carries an array or an object as title, every row written
  has finished 0 or 1: update always writes the flag, and create does when its nine
  arguments are the parameters.
\<close>

lemma finished_flag_for_scalar_titles:
  assumes "list_all scalar_request qs" and "r \<in> set (projects (run eng s qs))"
  shows "r \<in> set (projects s) \<or> finished r = SNum 0 \<or> finished r = SNum 1"
  using assms
proof (induction qs arbitrary: s)
  case Nil
  then show ?case by simp
next
  case (Cons q qs)
  from Cons.prems have "r \<in> set (projects (run eng (fst (handle eng s q)) qs))"
    and "list_all scalar_request qs" and q: "scalar_request q"
    by simp_all
  then have "r \<in> set (projects (fst (handle eng s q))) \<or> finished r = SNum 0 \<or> finished r = SNum 1"
    using Cons.IH by blast
  then show ?case
    using handle_finished [of r eng s q] q by blast
qed

text \<open>
  C9 does not hold of the code. A create request whose title is an array passes the
  presence check, and \<^verbatim>\<open>stmt.run\<close> takes the array as the whole parameter list: the
  ninth element, not \<^verbatim>\<open>finished ? 1 : 0\<close>, is stored as finished. Here the row written
  has finished 7, whatever the engine's conversions.
\<close>

theorem create_array_title_stores_finished_7:
  "projects (run eng empty_store
     [PostProject
        [(''title'', JArr [JStr ''T'', JStr ''D'', JStr ''2024-12-01'', JStr ''P'', JStr ''C'',
                           JStr ''CT'', JNum 1, JNum 2, JNum 7]),
         (''deadline'', JStr ''2024-12-01''), (''person'', JStr ''Alice'')]]) =
   [\<lparr>title = SText ''T'', description = SText ''D'', deadline = SText ''2024-12-01'',
     person = SText ''P'', client = SText ''C'', contact = SText ''CT'',
     achievements = SNum 1, price = SNum 2, finished = SNum 7, id_col = 1\<rparr>]"
  by (simp add: post_project_def sql_insert_def sql_get_def not_null_ok_def max_id_def
                with_id_def matches_def text_column_def real_column_def int_column_def
                run_params_def param_def insert_cols_def js_get_def row_body_def
                empty_store_def Let_def)

theorem create_array_title_stores_finished_7_witness:
  "projects (run sample_engine empty_store
     [PostProject
        [(''title'', JArr [JStr ''T'', JStr ''D'', JStr ''2024-12-01'', JStr ''P'', JStr ''C'',
                           JStr ''CT'', JNum 1, JNum 2, JNum 7]),
         (''deadline'', JStr ''2024-12-01''), (''person'', JStr ''Alice'')]]) =
   [\<lparr>title = SText ''T'', description = SText ''D'', deadline = SText ''2024-12-01'',
     person = SText ''P'', client = SText ''C'', contact = SText ''CT'',
     achievements = SNum 1, price = SNum 2, finished = SNum 7, id_col = 1\<rparr>]"
  by (rule create_array_title_stores_finished_7)

section \<open>The clients view groups by trimmed name\<close>

lemma map_of_replace:
  "map_of (map (\<lambda>(k, e). if k = key then (k, x) else (k, e)) m) k' =
     (if k' = key then (case map_of m key of None \<Rightarrow> None | Some e \<Rightarrow> Some x)
      else map_of m k')"
  by (induction m) auto

lemma keys_replace:
  "map fst (map (\<lambda>(k, e). if k = key then (k, x) else (k, e)) m) = map fst m"
  by (induction m) auto

lemma visit_cases:
  assumes "visit m p = Inr m'"
  obtains (skip) "m' = m" "client_key p = Inr [] \<or> (\<exists>k. client_key p = Inr k \<and> k \<in> set inherited \<and> map_of m k = None)"
    | (new) k where "client_key p = Inr k" "k \<noteq> []" "k \<notin> set inherited" "map_of m k = None"
        "m' = m @ [(k, (js_or (js_get p ''contact'') (JStr []), 1))]"
    | (known) k c n where "client_key p = Inr k" "k \<noteq> []" "map_of m k = Some (c, n)"
        "m' = map (\<lambda>(k', e). if k' = k
                     then (k', (if \<not> truthy c \<and> truthy (js_get p ''contact'')
                                then js_get p ''contact'' else c, n + 1))
                     else (k', e)) m"
proof (cases "client_key p")
  case (Inl e)
  then show ?thesis using assms by (simp add: visit_def)
next
  case (Inr k)
  show ?thesis
  proof (cases "k = []")
    case True
    then have "m' = m" using assms Inr by (simp add: visit_def)
    then show ?thesis using skip Inr True by blast
  next
    case False
    show ?thesis
    proof (cases "map_of m k")
      case None
      show ?thesis
      proof (cases "k \<in> set inherited")
        case True
        then have "m' = m" using assms Inr False None by (simp add: visit_def)
        then show ?thesis using skip Inr True None by blast
      next
        case ninh: False
        then have "m' = m @ [(k, (js_or (js_get p ''contact'') (JStr []), 1))]"
          using assms Inr False None by (simp add: visit_def)
        then show ?thesis using new Inr False ninh None by blast
      qed
    next
      case (Some e)
      then obtain c n where cn: "map_of m k = Some (c, n)" by (cases e) auto
      then have "m' = map (\<lambda>(k', e). if k' = k
                     then (k', (if \<not> truthy c \<and> truthy (js_get p ''contact'')
                                then js_get p ''contact'' else c, n + 1))
                     else (k', e)) m"
        using assms Inr False by (simp add: visit_def)
      then show ?thesis using known Inr False cn by blast
    qed
  qed
qed

lemma visit_distinct:
  assumes "visit m p = Inr m'" "distinct (map fst m)" "[] \<notin> set (map fst m)"
  shows "distinct (map fst m') \<and> [] \<notin> set (map fst m')"
  using assms(1)
proof (cases rule: visit_cases)
  case skip
  then show ?thesis using assms(2,3) by simp
next
  case (new k)
  then show ?thesis using assms(2,3) by (auto simp: map_of_eq_None_iff)
next
  case (known k c n)
  have "map fst m' = map fst m"
    unfolding known(4) by (rule keys_replace)
  then show ?thesis using assms(2,3) by (simp del: set_map)
qed

lemma forEach_distinct:
  "forEach m ps = Inr m' \<Longrightarrow> distinct (map fst m) \<Longrightarrow> [] \<notin> set (map fst m) \<Longrightarrow>
   distinct (map fst m') \<and> [] \<notin> set (map fst m')"
proof (induction ps arbitrary: m)
  case Nil
  then show ?case by simp
next
  case (Cons p ps)
  from Cons.prems(1) obtain m1 where v: "visit m p = Inr m1" and f: "forEach m1 ps = Inr m'"
    by (auto split: sum.splits)
  have "distinct (map fst m1) \<and> [] \<notin> set (map fst m1)"
    using v Cons.prems(2,3) by (rule visit_distinct)
  then show ?case
    using Cons.IH [OF f] by blast
qed

lemma visit_total: "client_key p = Inr k \<Longrightarrow> \<exists>m'. visit m p = Inr m'"
  by (auto simp: visit_def split: option.splits prod.splits)

lemma forEach_total:
  "\<forall>p \<in> set ps. \<exists>k. client_key p = Inr k \<Longrightarrow> \<exists>m'. forEach m ps = Inr m'"
proof (induction ps arbitrary: m)
  case Nil
  then show ?case by simp
next
  case (Cons p ps)
  then obtain k where "client_key p = Inr k" by auto
  then obtain m1 where "visit m p = Inr m1"
    using visit_total by blast
  then show ?case
    using Cons by auto
qed

text \<open>What one visit does to the entry of a key.\<close>

lemma visit_other:
  assumes "visit m p = Inr m'" "client_key p \<noteq> Inr k"
  shows "map_of m' k = map_of m k"
  using assms(1)
proof (cases rule: visit_cases)
  case skip
  then show ?thesis by simp
next
  case (new k')
  then show ?thesis using assms(2) by (auto simp: map_add_def split: option.splits)
next
  case (known k' c n)
  then show ?thesis using assms(2) by (auto simp: map_of_replace)
qed

lemma visit_new:
  assumes "visit m p = Inr m'" "client_key p = Inr k" "k \<noteq> []" "k \<notin> set inherited"
      and "map_of m k = None"
  shows "map_of m' k = Some (js_or (js_get p ''contact'') (JStr []), 1)"
  using assms by (auto simp: visit_def map_add_def)

lemma visit_known:
  assumes "visit m p = Inr m'" "client_key p = Inr k" "k \<noteq> []"
      and "map_of m k = Some (c, n)"
  shows "map_of m' k =
           Some (if \<not> truthy c \<and> truthy (js_get p ''contact'') then js_get p ''contact'' else c,
                 n + 1)"
  using assms by (auto simp: visit_def map_of_replace)

text \<open>The entry of a key after the loop, from the entry before and the key's group.\<close>

lemma forEach_entry:
  assumes "forEach m ps = Inr m'"
      and "\<forall>p \<in> set ps. \<forall>key. client_key p = Inr key \<longrightarrow> key \<notin> set inherited"
      and "k \<noteq> []"
  shows "map_of m' k =
           (case map_of m k of
              None \<Rightarrow> if spec_group ps k = [] then None
                       else Some (spec_contact ps k, spec_count ps k)
            | Some (c, n) \<Rightarrow>
                Some (if truthy c then c
                      else (case find truthy (map (\<lambda>p. js_get p ''contact'') (spec_group ps k)) of
                              None \<Rightarrow> c | Some v \<Rightarrow> v),
                      n + spec_count ps k))"
  using assms(1,2)
proof (induction ps arbitrary: m)
  case Nil
  then show ?case
    by (auto simp: spec_group_def spec_count_def split: option.splits)
next
  case (Cons p ps)
  from Cons.prems(1) obtain m1 where v: "visit m p = Inr m1" and f: "forEach m1 ps = Inr m'"
    by (auto split: sum.splits)
  have inh: "\<forall>p \<in> set ps. \<forall>key. client_key p = Inr key \<longrightarrow> key \<notin> set inherited"
    using Cons.prems(2) by simp
  note IH = Cons.IH [OF f inh]
  show ?case
  proof (cases "client_key p = Inr k")
    case False
    then have m1: "map_of m1 k = map_of m k"
      using v visit_other by blast
    have g: "spec_group (p # ps) k = spec_group ps k"
      using False by (simp add: spec_group_def)
    have "spec_count (p # ps) k = spec_count ps k" "spec_contact (p # ps) k = spec_contact ps k"
      by (simp_all add: spec_count_def spec_contact_def g)
    then show ?thesis
      using IH by (simp only: m1 g)
  next
    case True
    then have ninh: "k \<notin> set inherited"
      using Cons.prems(2) by simp
    have g: "spec_group (p # ps) k = p # spec_group ps k"
      using True by (simp add: spec_group_def)
    show ?thesis
    proof (cases "map_of m k")
      case None
      have "map_of m1 k = Some (js_or (js_get p ''contact'') (JStr []), 1)"
        using v True assms(3) ninh None by (rule visit_new)
      then show ?thesis
        using IH None g
        by (auto simp: spec_count_def spec_contact_def js_or_def split: option.splits)
    next
      case (Some e)
      obtain c n where e: "e = (c, n)" by (cases e)
      have "map_of m1 k =
              Some (if \<not> truthy c \<and> truthy (js_get p ''contact'') then js_get p ''contact'' else c,
                    n + 1)"
        using v True assms(3) Some [unfolded e] by (rule visit_known)
      then show ?thesis
        using IH Some e g
        by (auto simp: spec_count_def spec_contact_def split: option.splits)
    qed
  qed
qed


text \<open>
  C7 (as amended). For a list of projects whose client is a string or falsy, and none of
  whose trimmed client names is a name that objects inherit, the view has exactly one
  entry for each non-empty trimmed client name in the list, with the size of the name's
  group as count and the first truthy contact of the group, or the empty string, as
  contact.
\<close>

theorem clients_view_groups:
  assumes "\<forall>p \<in> set ps. \<exists>k. client_key p = Inr k \<and> k \<notin> set inherited"
  shows "\<exists>cs. ClientsPage ps = Inr cs
           \<and> distinct (map (\<lambda>c. js_get c ''name'') cs)
           \<and> (\<forall>c. c \<in> set cs \<longleftrightarrow>
                 (\<exists>k. k \<noteq> [] \<and> (\<exists>p \<in> set ps. client_key p = Inr k) \<and> c = spec_entry ps k))"
proof -
  let ?mk = "\<lambda>(k, (c, n)). [(''name'', JStr k), (''contact'', c), (''count'', JNum (of_nat n))]"
  have "\<forall>p \<in> set ps. \<exists>k. client_key p = Inr k"
    using assms by blast
  then obtain m where m: "forEach [] ps = Inr m"
    using forEach_total by blast
  have cp: "ClientsPage ps = Inr (map ?mk m)"
    by (simp add: ClientsPage_def m)
  have dist: "distinct (map fst m)" and nonempty: "[] \<notin> set (map fst m)"
    using forEach_distinct [OF m] by simp_all
  have inh: "\<forall>p \<in> set ps. \<forall>key. client_key p = Inr key \<longrightarrow> key \<notin> set inherited"
    using assms by auto
  have entry: "map_of m k = (if spec_group ps k = [] then None
                             else Some (spec_contact ps k, spec_count ps k))"
    if "k \<noteq> []" for k
    using forEach_entry [OF m inh that] by simp
  have grp: "spec_group ps k \<noteq> [] \<longleftrightarrow> (\<exists>p \<in> set ps. client_key p = Inr k)" for k
    by (auto simp: spec_group_def filter_empty_conv)
  have names: "map (\<lambda>c. js_get c ''name'') (map ?mk m) = map (\<lambda>x. JStr (fst x)) m"
    by (auto simp: js_get_def)
  have "distinct (map (\<lambda>x. JStr (fst x)) m)"
    using dist by (simp add: distinct_map inj_on_def)
  then have d: "distinct (map (\<lambda>c. js_get c ''name'') (map ?mk m))"
    by (simp only: names)
  have mem: "c \<in> set (map ?mk m) \<longleftrightarrow>
               (\<exists>k. k \<noteq> [] \<and> (\<exists>p \<in> set ps. client_key p = Inr k) \<and> c = spec_entry ps k)" for c
  proof
    assume "c \<in> set (map ?mk m)"
    then obtain k e n where in_m: "(k, (e, n)) \<in> set m" and c: "c = ?mk (k, (e, n))"
      by auto
    have k: "k \<noteq> []"
      using in_m nonempty by force
    have "map_of m k = Some (e, n)"
      using dist in_m by simp
    then have "spec_group ps k \<noteq> []" "e = spec_contact ps k" "n = spec_count ps k"
      using entry [OF k] by (auto split: if_splits)
    then show "\<exists>k. k \<noteq> [] \<and> (\<exists>p \<in> set ps. client_key p = Inr k) \<and> c = spec_entry ps k"
      using k c grp by (auto simp: spec_entry_def)
  next
    assume "\<exists>k. k \<noteq> [] \<and> (\<exists>p \<in> set ps. client_key p = Inr k) \<and> c = spec_entry ps k"
    then obtain k where k: "k \<noteq> []" and g: "\<exists>p \<in> set ps. client_key p = Inr k"
      and c: "c = spec_entry ps k"
      by blast
    have "map_of m k = Some (spec_contact ps k, spec_count ps k)"
      using entry [OF k] g grp by simp
    then have "(k, (spec_contact ps k, spec_count ps k)) \<in> set m"
      by (rule map_of_SomeD)
    then have "?mk (k, (spec_contact ps k, spec_count ps k)) \<in> set (map ?mk m)"
      unfolding set_map by (rule imageI)
    then show "c \<in> set (map ?mk m)"
      by (simp add: c spec_entry_def)
  qed
  show ?thesis
    by (rule exI [of _ "map ?mk m"]) (intro conjI allI cp d mem)
qed

text \<open>The example of the specification: Acme with two projects, Beta with one.\<close>

lemma clients_example:
  "ClientsPage
     [[(''client'', JStr ''Acme''), (''contact'', JStr ''a@x'')],
      [(''client'', JStr ''Acme''), (''contact'', JStr [])],
      [(''client'', JStr ''Beta''), (''contact'', JStr ''b@x'')]] =
   Inr [[(''name'', JStr ''Acme''), (''contact'', JStr ''a@x''), (''count'', JNum 2)],
        [(''name'', JStr ''Beta''), (''contact'', JStr ''b@x''), (''count'', JNum 1)]]"
  by (simp add: view_eval)

theorem clients_view_groups_witness:
  "\<exists>cs. ClientsPage
          [[(''client'', JStr ''Acme''), (''contact'', JStr ''a@x'')],
           [(''client'', JStr ''Acme''), (''contact'', JStr [])],
           [(''client'', JStr ''Beta''), (''contact'', JStr ''b@x'')]] = Inr cs
      \<and> distinct (map (\<lambda>c. js_get c ''name'') cs)
      \<and> [(''name'', JStr ''Acme''), (''contact'', JStr ''a@x''), (''count'', JNum 2)] \<in> set cs
      \<and> [(''name'', JStr ''Beta''), (''contact'', JStr ''b@x''), (''count'', JNum 1)] \<in> set cs"
proof -
  let ?ps = "[[(''client'', JStr ''Acme''), (''contact'', JStr ''a@x'')],
           [(''client'', JStr ''Acme''), (''contact'', JStr [])],
           [(''client'', JStr ''Beta''), (''contact'', JStr ''b@x'')]]"
  have hyp: "\<forall>p \<in> set ?ps. \<exists>k. client_key p = Inr k \<and> k \<notin> set inherited"
    by (simp add: view_eval)
  obtain cs where cs: "ClientsPage ?ps = Inr cs" "distinct (map (\<lambda>c. js_get c ''name'') cs)"
    and mem: "\<forall>c. c \<in> set cs \<longleftrightarrow>
                 (\<exists>k. k \<noteq> [] \<and> (\<exists>p \<in> set ?ps. client_key p = Inr k) \<and> c = spec_entry ?ps k)"
    using clients_view_groups [OF hyp] by blast
  have a: "spec_entry ?ps ''Acme'' =
             [(''name'', JStr ''Acme''), (''contact'', JStr ''a@x''), (''count'', JNum 2)]"
    by (simp add: view_eval)
  have b: "spec_entry ?ps ''Beta'' =
             [(''name'', JStr ''Beta''), (''contact'', JStr ''b@x''), (''count'', JNum 1)]"
    by (simp add: view_eval)
  have ka: "\<exists>p \<in> set ?ps. client_key p = Inr ''Acme''"
    by (simp add: view_eval)
  have kb: "\<exists>p \<in> set ?ps. client_key p = Inr ''Beta''"
    by (simp add: view_eval)
  have "spec_entry ?ps ''Acme'' \<in> set cs"
    using mem ka by blast
  moreover have "spec_entry ?ps ''Beta'' \<in> set cs"
    using mem kb by blast
  ultimately show ?thesis
    using cs by (simp only: a b) blast
qed

text \<open>
  C7 as stated fails: a client value of white space only is not empty and gets no entry,
  and two client values that differ in white space get one entry, counted together.
\<close>

theorem clients_untrimmed_counterexample:
  "ClientsPage [[(''client'', JStr '' ''), (''contact'', JStr ''a@x'')]] = Inr []
   \<and> ClientsPage
       [[(''client'', JStr '' Acme''), (''contact'', JStr ''a@x'')],
        [(''client'', JStr ''Acme''), (''contact'', JStr ''b@x'')]] =
     Inr [[(''name'', JStr ''Acme''), (''contact'', JStr ''a@x''), (''count'', JNum 2)]]"
  by (simp add: view_eval)

text \<open>
  A client named as a property that \<^verbatim>\<open>clientMap\<close> inherits is missing from the view:
  the lookup finds the inherited value, and no entry is made.
\<close>

lemma clients_inherited_name_dropped:
  "ClientsPage [[(''client'', JStr ''constructor''), (''contact'', JStr ''a@x'')]] = Inr []"
  by (simp add: view_eval)

section \<open>Trimming\<close>

lemma forEach_append:
  "forEach m (ps @ qs) = (case forEach m ps of Inl e \<Rightarrow> Inl e | Inr m' \<Rightarrow> forEach m' qs)"
  by (induction ps arbitrary: m) (auto split: sum.splits)

lemma trim_whitespace_only:
  assumes "\<forall>c \<in> set a. whitespace c"
  shows "trim a = []"
proof -
  have d: "dropWhile whitespace a = []"
    using assms by (simp add: dropWhile_eq_Nil_conv)
  show ?thesis
    unfolding trim_def d by simp
qed

lemma client_key_str: "js_get p ''client'' = JStr a \<Longrightarrow> client_key p = Inr (trim a)"
  by (cases "a = []") (simp_all add: client_key_def js_or_def trim_def)

lemma visit_skips: "client_key p = Inr [] \<Longrightarrow> visit m p = Inr m"
  by (simp add: visit_def)

lemma visit_same:
  assumes "client_key p = client_key q" "js_get p ''contact'' = js_get q ''contact''"
  shows "visit m p = visit m q"
  unfolding visit_def assms by (rule refl)

text \<open>
  The view sees a client only through its trimmed value: the key of a project is its
  client with the white space at both ends removed; a project whose client is white space
  only adds nothing to the view; and two projects whose clients are equal after trimming
  (and whose contacts agree) can stand for each other anywhere in the list.
\<close>

lemma view_blind_to_surrounding_whitespace:
  "(js_get p ''client'' = JStr a \<longrightarrow> client_key p = Inr (trim a))
   \<and> (js_get p ''client'' = JStr a \<and> (\<forall>c \<in> set a. whitespace c) \<longrightarrow>
        ClientsPage (ps @ p # qs) = ClientsPage (ps @ qs))
   \<and> (js_get p ''client'' = JStr a \<and> js_get q ''client'' = JStr b \<and> trim a = trim b
        \<and> js_get p ''contact'' = js_get q ''contact'' \<longrightarrow>
        ClientsPage (ps @ p # qs) = ClientsPage (ps @ q # qs))"
proof (intro conjI impI)
  assume "js_get p ''client'' = JStr a"
  then show "client_key p = Inr (trim a)"
    by (rule client_key_str)
next
  assume h: "js_get p ''client'' = JStr a \<and> (\<forall>c \<in> set a. whitespace c)"
  then have "client_key p = Inr []"
    using client_key_str [of p a] trim_whitespace_only [of a] by simp
  then have "visit m p = Inr m" for m
    by (rule visit_skips)
  then show "ClientsPage (ps @ p # qs) = ClientsPage (ps @ qs)"
    by (simp add: ClientsPage_def forEach_append split: sum.splits)
next
  assume h: "js_get p ''client'' = JStr a \<and> js_get q ''client'' = JStr b \<and> trim a = trim b
        \<and> js_get p ''contact'' = js_get q ''contact''"
  then have ck: "client_key p = client_key q"
    using client_key_str [of p a] client_key_str [of q b] by simp
  have ct: "js_get p ''contact'' = js_get q ''contact''"
    using h by simp
  have "visit m p = visit m q" for m
    using ck ct by (rule visit_same)
  then show "ClientsPage (ps @ p # qs) = ClientsPage (ps @ q # qs)"
    by (simp add: ClientsPage_def forEach_append split: sum.splits)
qed

text \<open>
  The map built by the loop, for a list whose clients are strings or falsy and whose
  trimmed client names are no inherited names: no key is empty, and each name has the
  entry of its group.
\<close>

lemma view_map:
  assumes "\<forall>p \<in> set ps. \<exists>k. client_key p = Inr k \<and> k \<notin> set inherited"
  shows "\<exists>m. ClientsPage ps =
               Inr (map (\<lambda>(k, (c, n)).
                          [(''name'', JStr k), (''contact'', c), (''count'', JNum (of_nat n))]) m)
           \<and> distinct (map fst m) \<and> [] \<notin> set (map fst m)
           \<and> (\<forall>k. k \<noteq> [] \<longrightarrow>
                 map_of m k = (if spec_group ps k = [] then None
                               else Some (spec_contact ps k, spec_count ps k)))"
proof -
  have "\<forall>p \<in> set ps. \<exists>k. client_key p = Inr k"
    using assms by blast
  then obtain m where m: "forEach [] ps = Inr m"
    using forEach_total by blast
  have inh: "\<forall>p \<in> set ps. \<forall>key. client_key p = Inr key \<longrightarrow> key \<notin> set inherited"
    using assms by auto
  have "map_of m k = (if spec_group ps k = [] then None
                      else Some (spec_contact ps k, spec_count ps k))"
    if "k \<noteq> []" for k
    using forEach_entry [OF m inh that] by simp
  moreover have "distinct (map fst m)" "[] \<notin> set (map fst m)"
    using forEach_distinct [OF m] by simp_all
  moreover have "ClientsPage ps =
               Inr (map (\<lambda>(k, (c, n)).
                          [(''name'', JStr k), (''contact'', c), (''count'', JNum (of_nat n))]) m)"
    by (simp add: ClientsPage_def m)
  ultimately show ?thesis
    by blast
qed

text \<open>
  For such a list, two projects whose clients are equal after trimming, to a name that is
  not empty, are in one group, and the view has the entry of that group under the trimmed
  name, with the size of the group as count, and no other entry of that name; no entry
  has the empty name, so a client of white space only has none.
\<close>

lemma trimmed_names_counted:
  assumes "\<forall>p \<in> set ps. \<exists>k. client_key p = Inr k \<and> k \<notin> set inherited"
      and "p \<in> set ps" "js_get p ''client'' = JStr a"
      and "q \<in> set ps" "js_get q ''client'' = JStr b"
      and "trim a = trim b" "trim a \<noteq> []"
  shows "\<exists>cs. ClientsPage ps = Inr cs
           \<and> spec_entry ps (trim a) \<in> set cs
           \<and> p \<in> set (spec_group ps (trim a)) \<and> q \<in> set (spec_group ps (trim a))
           \<and> (\<forall>c \<in> set cs. js_get c ''name'' = JStr (trim a) \<longrightarrow> c = spec_entry ps (trim a))
           \<and> (\<forall>c \<in> set cs. js_get c ''name'' \<noteq> JStr [])"
proof -
  let ?mk = "\<lambda>(k, (c, n)). [(''name'', JStr k), (''contact'', c), (''count'', JNum (of_nat n))]"
  let ?k = "trim a"
  obtain m where cp: "ClientsPage ps = Inr (map ?mk m)"
    and dist: "distinct (map fst m)" and nonempty: "[] \<notin> set (map fst m)"
    and entry: "\<forall>k. k \<noteq> [] \<longrightarrow>
                 map_of m k = (if spec_group ps k = [] then None
                               else Some (spec_contact ps k, spec_count ps k))"
    using view_map [OF assms(1)] by blast
  have kp: "client_key p = Inr ?k" and kq: "client_key q = Inr ?k"
    using assms(3,5,6) by (simp_all add: client_key_str)
  have gp: "p \<in> set (spec_group ps ?k)" and gq: "q \<in> set (spec_group ps ?k)"
    using assms(2,4) kp kq by (simp_all add: spec_group_def)
  then have "spec_group ps ?k \<noteq> []"
    by auto
  then have look: "map_of m ?k = Some (spec_contact ps ?k, spec_count ps ?k)"
    using entry assms(7) by simp
  then have "(?k, (spec_contact ps ?k, spec_count ps ?k)) \<in> set m"
    by (rule map_of_SomeD)
  then have "?mk (?k, (spec_contact ps ?k, spec_count ps ?k)) \<in> set (map ?mk m)"
    unfolding set_map by (rule imageI)
  then have there: "spec_entry ps ?k \<in> set (map ?mk m)"
    by (simp add: spec_entry_def)
  have only: "c = spec_entry ps ?k"
    if "c \<in> set (map ?mk m)" "js_get c ''name'' = JStr ?k" for c
  proof -
    from that(1) obtain k e n where in_m: "(k, (e, n)) \<in> set m" and c: "c = ?mk (k, (e, n))"
      by auto
    have "k = ?k"
      using that(2) c by (simp add: js_get_def)
    then have "map_of m ?k = Some (e, n)"
      using dist in_m by simp
    then show ?thesis
      using look c \<open>k = ?k\<close> by (simp add: spec_entry_def)
  qed
  have named: "js_get c ''name'' \<noteq> JStr []" if "c \<in> set (map ?mk m)" for c
  proof -
    from that obtain k e n where in_m: "(k, (e, n)) \<in> set m" and c: "c = ?mk (k, (e, n))"
      by auto
    have "k \<noteq> []"
      using in_m nonempty by force
    then show ?thesis
      using c by (simp add: js_get_def)
  qed
  show ?thesis
    by (rule exI [of _ "map ?mk m"]) (use cp there gp gq only named in blast)
qed

text \<open>The two spellings of Acme are counted together, once each.\<close>

lemma acme_counted_twice:
  "ClientsPage
     [[(''client'', JStr ''Acme''), (''contact'', JStr ''a@x'')],
      [(''client'', JStr ''  ''), (''contact'', JStr ''c@x'')],
      [(''client'', JStr '' Acme ''), (''contact'', JStr ''b@x'')]] =
   Inr [[(''name'', JStr ''Acme''), (''contact'', JStr ''a@x''), (''count'', JNum 2)]]"
  by (simp add: view_eval)

text \<open>
  C10 does not hold of the code. Two projects of one client, whose name is written with
  and without a leading blank, are to be counted under the trimmed name. When that name
  is one that \<^verbatim>\<open>clientMap\<close>, a plain object, inherits, the lookup
  \<^verbatim>\<open>clientMap[key]\<close> finds the inherited value for both, no entry is made, and
  neither project is counted: the view is empty.
\<close>

theorem clients_inherited_name_not_counted:
  "ClientsPage
     [[(''client'', JStr '' constructor''), (''contact'', JStr ''a@x'')],
      [(''client'', JStr ''constructor''), (''contact'', JStr ''b@x'')]] =
   Inr []"
  by (simp add: view_eval)

section \<open>Replies with an error status\<close>

text \<open>
  When the request is rejected, or the body of the answer is no JSON, the list stays as
  it is. The status of an answer is never looked at.
\<close>

lemma rejected_keeps_list:
  "addProject prev Rejected = prev"
  "deleteProject prev i Rejected = prev"
  "toggleFinished prev Rejected = prev"
  "addProject prev (Answered st None) = prev"
  "deleteProject prev i (Answered st None) = prev"
  "toggleFinished prev (Answered st None) = prev"
  by (simp_all add: addProject_def deleteProject_def toggleFinished_def)

lemma status_ignored:
  "addProject prev (Answered st (Some e)) = prev @ [e]"
  "deleteProject prev i (Answered st (Some e)) =
     filter (\<lambda>p. \<not> strict_eq (js_get p ''id'') (JNum i)) prev"
  by (simp_all add: addProject_def deleteProject_def)

text \<open>
  C8 does not hold of the code. An answer with status 500 and the API's error object as
  body runs the success path: \<^verbatim>\<open>addProject\<close> appends the error object to the list,
  and \<^verbatim>\<open>deleteProject\<close> removes the entry although the row was not deleted.
\<close>

theorem error_reply_changes_list:
  "addProject [] (Answered 500 (Some [(''error'', JStr ''Database insertion error'')]))
     = [[(''error'', JStr ''Database insertion error'')]]
   \<and> deleteProject [[(''id'', JNum 1), (''title'', JStr ''Website'')]] 1
        (Answered 500 (Some [(''error'', JStr ''Database deletion error'')]))
     = []"
  by (simp add: addProject_def deleteProject_def js_get_def)

end
